theory Spec2Isabelle
  imports Main
begin

section \<open>The TokenFaucet contract (backend/contracts/TokenFaucet.sol)\<close>

text \<open>
  A shallow embedding of the Solidity contract \<^verbatim>\<open>TokenFaucet\<close>. Storage is a record,
  every external function is a HOL function from the call context and the storage to
  either a revert reason (\<open>Inl\<close>) or the storage after the call (\<open>Inr\<close>). Values of
  type \<^verbatim>\<open>uint256\<close> are natural numbers; Solidity 0.8 reverts with a panic when an
  addition leaves the range, and every addition of the contract carries that test.
\<close>

subsection \<open>Values, errors and records\<close>

type_synonym address = nat
type_synonym uint256 = nat

definition max_uint256 :: nat where
  "max_uint256 = 2 ^ 256 - 1"

definition overflows :: "uint256 \<Rightarrow> uint256 \<Rightarrow> bool" where
  "overflows a b = (max_uint256 < a + b)"

text \<open>\<^verbatim>\<open>1 days\<close> in seconds.\<close>

definition one_day :: nat where
  "one_day = 86400"

text \<open>\<^verbatim>\<open>address(0)\<close>.\<close>

definition zero_address :: address where
  "zero_address = 0"

text \<open>
  One constructor for each way a call reverts, named as in section 7 of the
  specification. The revert strings of the source map to them as follows:
  \<^item> \<open>InvalidConfig\<close>: "tokens per request must be > 0", "max tokens must be >= tokens
    per request", "daily limit must be >= tokens per request";
  \<^item> \<open>InvalidTokenAddress\<close>: "invalid token address";
  \<^item> \<open>Unauthorized\<close>: \<^verbatim>\<open>onlyOwner\<close> (OwnableUnauthorizedAccount);
  \<^item> \<open>Paused\<close>: \<^verbatim>\<open>whenNotPaused\<close> (EnforcedPause); \<open>NotPaused\<close>: ExpectedPause;
  \<^item> \<open>CallerNotOriginator\<close>: "contracts not allowed";
  \<^item> \<open>Blacklisted\<close>: "user is blacklisted";
  \<^item> \<open>CooldownActive\<close>: "cooldown period not met";
  \<^item> \<open>PerAddressCapExceeded\<close>: "max tokens per address exceeded";
  \<^item> \<open>DailyCapExceeded\<close>: "daily limit exceeded";
  \<^item> \<open>InsufficientFaucetBalance\<close>: "insufficient faucet balance", "insufficient balance";
  \<^item> \<open>LedgerTransferFailed\<close>: the token's transfer or transferFrom reverted;
  \<^item> \<open>InvalidAmount\<close>: "amount must be > 0", "invalid amount";
  \<^item> \<open>InvalidAddress\<close>: "invalid address";
  \<^item> \<open>InvalidRecipient\<close>: "invalid recipient";
  \<^item> \<open>LengthMismatch\<close>: "arrays length mismatch"; \<open>EmptyInput\<close>: "empty arrays";
  \<^item> \<open>Panic\<close>: checked arithmetic overflow or an array index out of bounds.
\<close>

datatype error =
    InvalidConfig
  | InvalidTokenAddress
  | Unauthorized
  | Paused
  | NotPaused
  | CallerNotOriginator
  | Blacklisted
  | CooldownActive
  | PerAddressCapExceeded
  | DailyCapExceeded
  | InsufficientFaucetBalance
  | LedgerTransferFailed
  | InvalidAmount
  | InvalidAddress
  | InvalidRecipient
  | LengthMismatch
  | EmptyInput
  | Panic

text \<open>The events of the contract, with the two events of Pausable.\<close>

datatype event =
    TokensRequested address uint256 uint256
  | TokensDeposited address uint256
  | TokensWithdrawn address uint256
  | FaucetConfigured uint256 uint256 uint256 uint256
  | UserBlacklisted address bool
  | DailyLimitReset uint256 uint256
  | EmergencyWithdraw address uint256
  | PausedEvent address
  | UnpausedEvent address

text \<open>
  The token ledger. The faucet talks to its token through \<^verbatim>\<open>IERC20\<close>; the token of
  this repository is \<^verbatim>\<open>SimpleToken\<close> (contracts/SimpleToken.sol), an ERC20 of
  OpenZeppelin that is also \<^verbatim>\<open>ERC20Pausable\<close>: its \<^verbatim>\<open>_update\<close> is the one of
  \<^verbatim>\<open>ERC20Pausable\<close>, and \<^verbatim>\<open>pause()\<close> "pauses all token transfers". A ledger is
  a balance per holder, an allowance per holder and spender, and the pause flag of the
  token. Every token address is taken to hold a ledger of this kind. All failures of a
  ledger are the one error \<open>LedgerTransferFailed\<close>. Credits do not overflow, since a
  ledger bounds its total supply.
\<close>

record ledger =
  balances :: "address \<Rightarrow> uint256"
  allowances :: "address \<Rightarrow> address \<Rightarrow> uint256"
  transfers_paused :: bool

text \<open>
  \<^verbatim>\<open>_transfer(from, to, value)\<close> of ERC20 followed by \<^verbatim>\<open>_update\<close> of ERC20Pausable:
  it refuses the zero address on either side, refuses while the token is paused, and
  refuses when the paying balance is short.
\<close>

definition ledger_transfer :: "ledger \<Rightarrow> address \<Rightarrow> address \<Rightarrow> uint256 \<Rightarrow> error + ledger" where
  "ledger_transfer L src dst amount =
     (if src = zero_address then Inl LedgerTransferFailed
      else if dst = zero_address then Inl LedgerTransferFailed
      else if transfers_paused L then Inl LedgerTransferFailed
      else if balances L src < amount then Inl LedgerTransferFailed
      else
        let debited = (balances L)(src := balances L src - amount)
        in Inr (L\<lparr>balances := debited(dst := debited dst + amount)\<rparr>))"

text \<open>
  \<^verbatim>\<open>transferFrom(from, to, value)\<close> called by \<open>spender\<close>: \<^verbatim>\<open>_spendAllowance\<close>, which
  leaves an unlimited allowance alone, then \<^verbatim>\<open>_transfer\<close>.
\<close>

definition ledger_transferFrom ::
  "ledger \<Rightarrow> address \<Rightarrow> address \<Rightarrow> address \<Rightarrow> uint256 \<Rightarrow> error + ledger" where
  "ledger_transferFrom L spender src dst amount =
     (if allowances L src spender = max_uint256 then ledger_transfer L src dst amount
      else if allowances L src spender < amount then Inl LedgerTransferFailed
      else ledger_transfer
             (L\<lparr>allowances := (allowances L)
                  (src := (allowances L src)(spender := allowances L src spender - amount))\<rparr>)
             src dst amount)"

text \<open>The ledger accepts a transfer when \<open>ledger_transfer\<close> does not fail.\<close>

definition ledger_accepts :: "ledger \<Rightarrow> address \<Rightarrow> address \<Rightarrow> uint256 \<Rightarrow> bool" where
  "ledger_accepts L src dst amount =
     (case ledger_transfer L src dst amount of Inl err \<Rightarrow> False | Inr L' \<Rightarrow> True)"

text \<open>\<^verbatim>\<open>pause()\<close> of SimpleToken, called by the owner of the token.\<close>

definition ledger_pause :: "ledger \<Rightarrow> ledger" where
  "ledger_pause L = L\<lparr>transfers_paused := True\<rparr>"

text \<open>The call context: \<^verbatim>\<open>msg.sender\<close>, \<^verbatim>\<open>tx.origin\<close> and \<^verbatim>\<open>block.timestamp\<close>.\<close>

record env =
  msg_sender :: address
  tx_origin :: address
  block_timestamp :: uint256

text \<open>
  The storage of the contract, followed by what it reads from its surroundings: its own
  address, the owner of Ownable, the flag of Pausable, the ledgers (one per token
  address) and the log of emitted events.
\<close>

record faucet =
  token :: address
  tokensPerRequest :: uint256
  cooldownTime :: uint256
  maxTokensPerAddress :: uint256
  dailyLimit :: uint256
  totalDistributedToday :: uint256
  lastResetTime :: uint256
  lastRequestTime :: "address \<Rightarrow> uint256"
  totalTokensReceived :: "address \<Rightarrow> uint256"
  blacklisted :: "address \<Rightarrow> bool"
  this_address :: address
  owner :: address
  paused :: bool
  ledgers :: "address \<Rightarrow> ledger"
  events :: "event list"

text \<open>\<^verbatim>\<open>IERC20(tok).balanceOf(address(this))\<close> and \<^verbatim>\<open>token.balanceOf(address(this))\<close>.\<close>

definition balanceOfThis :: "faucet \<Rightarrow> address \<Rightarrow> uint256" where
  "balanceOfThis w tok = balances (ledgers w tok) (this_address w)"

definition getFaucetBalance :: "faucet \<Rightarrow> uint256" where
  "getFaucetBalance w = balanceOfThis w (token w)"

text \<open>\<^verbatim>\<open>IERC20(tok).safeTransfer(dst, amount)\<close>: the contract pays from its own balance.\<close>

definition safeTransfer :: "faucet \<Rightarrow> address \<Rightarrow> address \<Rightarrow> uint256 \<Rightarrow> error + faucet" where
  "safeTransfer w tok dst amount =
     (case ledger_transfer (ledgers w tok) (this_address w) dst amount of
        Inl err \<Rightarrow> Inl err
      | Inr L \<Rightarrow> Inr (w\<lparr>ledgers := (ledgers w)(tok := L)\<rparr>))"

text \<open>\<^verbatim>\<open>IERC20(tok).safeTransferFrom(src, address(this), amount)\<close>.\<close>

definition safeTransferFrom :: "faucet \<Rightarrow> address \<Rightarrow> address \<Rightarrow> uint256 \<Rightarrow> error + faucet" where
  "safeTransferFrom w tok src amount =
     (case ledger_transferFrom (ledgers w tok) (this_address w) src (this_address w) amount of
        Inl err \<Rightarrow> Inl err
      | Inr L \<Rightarrow> Inr (w\<lparr>ledgers := (ledgers w)(tok := L)\<rparr>))"

definition emit :: "event \<Rightarrow> faucet \<Rightarrow> faucet" where
  "emit ev w = w\<lparr>events := events w @ [ev]\<rparr>"

text \<open>
  The state after the owner of the token has called \<^verbatim>\<open>pause()\<close> of the token the
  faucet distributes.
\<close>

definition pause_token :: "faucet \<Rightarrow> faucet" where
  "pause_token w = w\<lparr>ledgers := (ledgers w)(token w := ledger_pause (ledgers w (token w)))\<rparr>"

subsection \<open>Construction\<close>

text \<open>
  The constructor. \<open>this\<close> is the address the contract is deployed at and \<open>ls\<close> the
  ledgers at that moment; the deployer becomes the owner.
\<close>

definition constructor_faucet ::
  "env \<Rightarrow> address \<Rightarrow> (address \<Rightarrow> ledger) \<Rightarrow> address \<Rightarrow> uint256 \<Rightarrow> uint256 \<Rightarrow> uint256 \<Rightarrow> uint256
     \<Rightarrow> error + faucet" where
  "constructor_faucet e this ls tokenAddress tokensPerRequest' cooldownTime'
       maxTokensPerAddress' dailyLimit' =
     (if tokenAddress = zero_address then Inl InvalidTokenAddress
      else if \<not> 0 < tokensPerRequest' then Inl InvalidConfig
      else if \<not> tokensPerRequest' \<le> maxTokensPerAddress' then Inl InvalidConfig
      else if \<not> tokensPerRequest' \<le> dailyLimit' then Inl InvalidConfig
      else Inr \<lparr>token = tokenAddress,
                tokensPerRequest = tokensPerRequest',
                cooldownTime = cooldownTime',
                maxTokensPerAddress = maxTokensPerAddress',
                dailyLimit = dailyLimit',
                totalDistributedToday = 0,
                lastResetTime = block_timestamp e,
                lastRequestTime = (\<lambda>_. 0),
                totalTokensReceived = (\<lambda>_. 0),
                blacklisted = (\<lambda>_. False),
                this_address = this,
                owner = msg_sender e,
                paused = False,
                ledgers = ls,
                events = [FaucetConfigured tokensPerRequest' cooldownTime'
                            maxTokensPerAddress' dailyLimit']\<rparr>)"

subsection \<open>Internal functions\<close>

text \<open>
  \<^verbatim>\<open>_validateRequest(user)\<close>: \<open>None\<close> when every \<^verbatim>\<open>require\<close> passes, otherwise the
  first failure.
\<close>

definition validateRequest :: "env \<Rightarrow> faucet \<Rightarrow> address \<Rightarrow> error option" where
  "validateRequest e w user =
     (if user \<noteq> tx_origin e then Some CallerNotOriginator
      else if blacklisted w user then Some Blacklisted
      else if overflows (lastRequestTime w user) (cooldownTime w) then Some Panic
      else if \<not> lastRequestTime w user + cooldownTime w \<le> block_timestamp e
        then Some CooldownActive
      else if overflows (totalTokensReceived w user) (tokensPerRequest w) then Some Panic
      else if \<not> totalTokensReceived w user + tokensPerRequest w \<le> maxTokensPerAddress w
        then Some PerAddressCapExceeded
      else None)"

text \<open>\<^verbatim>\<open>_resetDailyLimit()\<close>.\<close>

definition resetDailyLimit_internal :: "env \<Rightarrow> faucet \<Rightarrow> faucet" where
  "resetDailyLimit_internal e w =
     (let previousTotal = totalDistributedToday w
      in emit (DailyLimitReset (block_timestamp e) previousTotal)
           (w\<lparr>totalDistributedToday := 0, lastResetTime := block_timestamp e\<rparr>))"

text \<open>\<^verbatim>\<open>_resetDailyLimitIfNeeded()\<close>.\<close>

definition resetDailyLimitIfNeeded :: "env \<Rightarrow> faucet \<Rightarrow> error + faucet" where
  "resetDailyLimitIfNeeded e w =
     (if overflows (lastResetTime w) one_day then Inl Panic
      else if lastResetTime w + one_day \<le> block_timestamp e
        then Inr (resetDailyLimit_internal e w)
      else Inr w)"

text \<open>
  \<^verbatim>\<open>_canUserRequest(user)\<close>, a view: it returns a boolean, or reverts when one of its
  additions overflows.
\<close>

definition canUserRequest_internal :: "env \<Rightarrow> faucet \<Rightarrow> address \<Rightarrow> error + bool" where
  "canUserRequest_internal e w user =
     (if paused w \<or> blacklisted w user then Inr False
      else if overflows (lastRequestTime w user) (cooldownTime w) then Inl Panic
      else if block_timestamp e < lastRequestTime w user + cooldownTime w then Inr False
      else if overflows (totalTokensReceived w user) (tokensPerRequest w) then Inl Panic
      else if maxTokensPerAddress w < totalTokensReceived w user + tokensPerRequest w
        then Inr False
      else if overflows (totalDistributedToday w) (tokensPerRequest w) then Inl Panic
      else if dailyLimit w < totalDistributedToday w + tokensPerRequest w then Inr False
      else Inr (tokensPerRequest w \<le> getFaucetBalance w))"

subsection \<open>External functions\<close>

text \<open>
  \<^verbatim>\<open>requestTokens()\<close>. The two compound assignments add the sums the checks before
  them have already computed without overflow.
\<close>

definition requestTokens :: "env \<Rightarrow> faucet \<Rightarrow> error + faucet" where
  "requestTokens e w =
     (if paused w then Inl Paused
      else
        let user = msg_sender e in
        case validateRequest e w user of
          Some err \<Rightarrow> Inl err
        | None \<Rightarrow>
           (case resetDailyLimitIfNeeded e w of
              Inl err \<Rightarrow> Inl err
            | Inr w1 \<Rightarrow>
                if overflows (totalDistributedToday w1) (tokensPerRequest w1) then Inl Panic
                else if \<not> totalDistributedToday w1 + tokensPerRequest w1 \<le> dailyLimit w1
                  then Inl DailyCapExceeded
                else if \<not> tokensPerRequest w1 \<le> getFaucetBalance w1
                  then Inl InsufficientFaucetBalance
                else
                  let wa = w1\<lparr>lastRequestTime :=
                                 (lastRequestTime w1)(user := block_timestamp e)\<rparr>;
                      wb = wa\<lparr>totalTokensReceived :=
                                 (totalTokensReceived wa)
                                   (user := totalTokensReceived wa user + tokensPerRequest wa)\<rparr>;
                      w2 = wb\<lparr>totalDistributedToday :=
                                 totalDistributedToday wb + tokensPerRequest wb\<rparr>
                  in (case safeTransfer w2 (token w2) user (tokensPerRequest w2) of
                        Inl err \<Rightarrow> Inl err
                      | Inr w3 \<Rightarrow>
                          Inr (emit (TokensRequested user (tokensPerRequest w3)
                                       (block_timestamp e)) w3))))"

text \<open>The first loop of \<^verbatim>\<open>batchDistribute\<close>: \<^verbatim>\<open>totalAmount += amounts[i]\<close>.\<close>

fun sum_amounts :: "uint256 \<Rightarrow> uint256 list \<Rightarrow> error + uint256" where
  "sum_amounts totalAmount [] = Inr totalAmount"
| "sum_amounts totalAmount (a # as) =
     (if overflows totalAmount a then Inl Panic else sum_amounts (totalAmount + a) as)"

text \<open>
  The second loop of \<^verbatim>\<open>batchDistribute\<close>, over the entries that are left. It runs over
  \<^verbatim>\<open>recipients\<close>; reading \<^verbatim>\<open>amounts[i]\<close> past the end is a panic.
\<close>

fun distribute_loop :: "env \<Rightarrow> address list \<Rightarrow> uint256 list \<Rightarrow> faucet \<Rightarrow> error + faucet" where
  "distribute_loop e [] amounts w = Inr w"
| "distribute_loop e (r # recipients) [] w = Inl Panic"
| "distribute_loop e (r # recipients) (a # amounts) w =
     (if r = zero_address then Inl InvalidRecipient
      else if \<not> 0 < a then Inl InvalidAmount
      else case safeTransfer w (token w) r a of
             Inl err \<Rightarrow> Inl err
           | Inr w1 \<Rightarrow>
               distribute_loop e recipients amounts
                 (emit (TokensRequested r a (block_timestamp e)) w1))"

text \<open>\<^verbatim>\<open>batchDistribute(recipients, amounts)\<close>.\<close>

definition batchDistribute :: "env \<Rightarrow> address list \<Rightarrow> uint256 list \<Rightarrow> faucet \<Rightarrow> error + faucet" where
  "batchDistribute e recipients amounts w =
     (if msg_sender e \<noteq> owner w then Inl Unauthorized
      else if length recipients \<noteq> length amounts then Inl LengthMismatch
      else if \<not> 0 < length recipients then Inl EmptyInput
      else case sum_amounts 0 amounts of
             Inl err \<Rightarrow> Inl err
           | Inr totalAmount \<Rightarrow>
               if \<not> totalAmount \<le> getFaucetBalance w then Inl InsufficientFaucetBalance
               else distribute_loop e recipients amounts w)"

text \<open>\<^verbatim>\<open>depositTokens(amount)\<close>.\<close>

definition depositTokens :: "env \<Rightarrow> uint256 \<Rightarrow> faucet \<Rightarrow> error + faucet" where
  "depositTokens e amount w =
     (if \<not> 0 < amount then Inl InvalidAmount
      else case safeTransferFrom w (token w) (msg_sender e) amount of
             Inl err \<Rightarrow> Inl err
           | Inr w1 \<Rightarrow> Inr (emit (TokensDeposited (msg_sender e) amount) w1))"

text \<open>\<^verbatim>\<open>withdrawTokens(amount)\<close>.\<close>

definition withdrawTokens :: "env \<Rightarrow> uint256 \<Rightarrow> faucet \<Rightarrow> error + faucet" where
  "withdrawTokens e amount w =
     (if msg_sender e \<noteq> owner w then Inl Unauthorized
      else if \<not> 0 < amount then Inl InvalidAmount
      else if \<not> amount \<le> getFaucetBalance w then Inl InsufficientFaucetBalance
      else case safeTransfer w (token w) (owner w) amount of
             Inl err \<Rightarrow> Inl err
           | Inr w1 \<Rightarrow> Inr (emit (TokensWithdrawn (owner w1) amount) w1))"

text \<open>\<^verbatim>\<open>configureFaucet(tokensPerRequest_, cooldownTime_, maxTokensPerAddress_, dailyLimit_)\<close>.\<close>

definition configureFaucet ::
  "env \<Rightarrow> uint256 \<Rightarrow> uint256 \<Rightarrow> uint256 \<Rightarrow> uint256 \<Rightarrow> faucet \<Rightarrow> error + faucet" where
  "configureFaucet e tokensPerRequest' cooldownTime' maxTokensPerAddress' dailyLimit' w =
     (if msg_sender e \<noteq> owner w then Inl Unauthorized
      else if \<not> 0 < tokensPerRequest' then Inl InvalidConfig
      else if \<not> tokensPerRequest' \<le> maxTokensPerAddress' then Inl InvalidConfig
      else if \<not> tokensPerRequest' \<le> dailyLimit' then Inl InvalidConfig
      else Inr (emit (FaucetConfigured tokensPerRequest' cooldownTime'
                        maxTokensPerAddress' dailyLimit')
                  (w\<lparr>tokensPerRequest := tokensPerRequest',
                     cooldownTime := cooldownTime',
                     maxTokensPerAddress := maxTokensPerAddress',
                     dailyLimit := dailyLimit'\<rparr>)))"

text \<open>
  \<^verbatim>\<open>pause()\<close> and \<^verbatim>\<open>unpause()\<close>. \<^verbatim>\<open>_pause\<close> and \<^verbatim>\<open>_unpause\<close> belong to Pausable of
  OpenZeppelin: each sets the flag, emits its event, and reverts when the flag already
  has the value.
\<close>

definition pause :: "env \<Rightarrow> faucet \<Rightarrow> error + faucet" where
  "pause e w =
     (if msg_sender e \<noteq> owner w then Inl Unauthorized
      else if paused w then Inl Paused
      else Inr (emit (PausedEvent (msg_sender e)) (w\<lparr>paused := True\<rparr>)))"

definition unpause :: "env \<Rightarrow> faucet \<Rightarrow> error + faucet" where
  "unpause e w =
     (if msg_sender e \<noteq> owner w then Inl Unauthorized
      else if \<not> paused w then Inl NotPaused
      else Inr (emit (UnpausedEvent (msg_sender e)) (w\<lparr>paused := False\<rparr>)))"

text \<open>\<^verbatim>\<open>setBlacklisted(user, status)\<close>.\<close>

definition setBlacklisted :: "env \<Rightarrow> address \<Rightarrow> bool \<Rightarrow> faucet \<Rightarrow> error + faucet" where
  "setBlacklisted e user status w =
     (if msg_sender e \<noteq> owner w then Inl Unauthorized
      else if user = zero_address then Inl InvalidAddress
      else Inr (emit (UserBlacklisted user status)
                  (w\<lparr>blacklisted := (blacklisted w)(user := status)\<rparr>)))"

text \<open>\<^verbatim>\<open>resetDailyLimit()\<close>.\<close>

definition resetDailyLimit :: "env \<Rightarrow> faucet \<Rightarrow> error + faucet" where
  "resetDailyLimit e w =
     (if msg_sender e \<noteq> owner w then Inl Unauthorized
      else Inr (resetDailyLimit_internal e w))"

text \<open>\<^verbatim>\<open>emergencyWithdraw(tokenAddress, amount)\<close>.\<close>

definition emergencyWithdraw :: "env \<Rightarrow> address \<Rightarrow> uint256 \<Rightarrow> faucet \<Rightarrow> error + faucet" where
  "emergencyWithdraw e tokenAddress amount w =
     (if msg_sender e \<noteq> owner w then Inl Unauthorized
      else if tokenAddress = zero_address then Inl InvalidTokenAddress
      else if \<not> 0 < amount then Inl InvalidAmount
      else case safeTransfer w tokenAddress (owner w) amount of
             Inl err \<Rightarrow> Inl err
           | Inr w1 \<Rightarrow> Inr (emit (EmergencyWithdraw tokenAddress amount) w1))"

text \<open>\<^verbatim>\<open>getUserInfo(user)\<close>, a view with four results.\<close>

definition getUserInfo ::
  "env \<Rightarrow> faucet \<Rightarrow> address \<Rightarrow> error + (uint256 \<times> uint256 \<times> bool \<times> uint256)" where
  "getUserInfo e w user =
     (let totalReceived = totalTokensReceived w user;
          lastRequest = lastRequestTime w user
      in if overflows lastRequest (cooldownTime w) then Inl Panic
         else
           let nextRequestTime = lastRequest + cooldownTime w
           in case canUserRequest_internal e w user of
                Inl err \<Rightarrow> Inl err
              | Inr canRequest \<Rightarrow>
                  Inr (totalReceived, lastRequest, canRequest,
                       if block_timestamp e < nextRequestTime
                       then nextRequestTime - block_timestamp e else 0))"

text \<open>\<^verbatim>\<open>canUserRequest(user)\<close>.\<close>

definition canUserRequest :: "env \<Rightarrow> faucet \<Rightarrow> address \<Rightarrow> error + bool" where
  "canUserRequest e w user = canUserRequest_internal e w user"

text \<open>
  The \<^verbatim>\<open>require\<close> statements of \<open>requestTokens\<close> in their order, with the step
  \<^verbatim>\<open>_resetDailyLimitIfNeeded\<close> left out: the pause check, the four checks of
  \<^verbatim>\<open>_validateRequest\<close>, and the daily cap and the balance against the current total.
\<close>

definition request_checks_without_reset :: "env \<Rightarrow> faucet \<Rightarrow> bool" where
  "request_checks_without_reset e w =
     (\<not> paused w
      \<and> validateRequest e w (msg_sender e) = None
      \<and> \<not> overflows (totalDistributedToday w) (tokensPerRequest w)
      \<and> totalDistributedToday w + tokensPerRequest w \<le> dailyLimit w
      \<and> tokensPerRequest w \<le> getFaucetBalance w)"

subsection \<open>Transactions\<close>

text \<open>
  The operations of the controller as data, and the dispatch of a call. A transaction
  that reverts leaves the storage and the ledgers as they were: that is the rule of the
  virtual machine, and \<open>transact\<close> writes it out.
\<close>

datatype call =
    RequestTokens
  | BatchDistribute "address list" "uint256 list"
  | DepositTokens uint256
  | WithdrawTokens uint256
  | ConfigureFaucet uint256 uint256 uint256 uint256
  | Pause
  | Unpause
  | SetBlacklisted address bool
  | ResetDailyLimit
  | EmergencyWithdrawCall address uint256

fun exec :: "env \<Rightarrow> call \<Rightarrow> faucet \<Rightarrow> error + faucet" where
  "exec e RequestTokens w = requestTokens e w"
| "exec e (BatchDistribute recipients amounts) w = batchDistribute e recipients amounts w"
| "exec e (DepositTokens amount) w = depositTokens e amount w"
| "exec e (WithdrawTokens amount) w = withdrawTokens e amount w"
| "exec e (ConfigureFaucet t c m d) w = configureFaucet e t c m d w"
| "exec e Pause w = pause e w"
| "exec e Unpause w = unpause e w"
| "exec e (SetBlacklisted user status) w = setBlacklisted e user status w"
| "exec e ResetDailyLimit w = resetDailyLimit e w"
| "exec e (EmergencyWithdrawCall tokenAddress amount) w = emergencyWithdraw e tokenAddress amount w"

definition transact :: "env \<Rightarrow> call \<Rightarrow> faucet \<Rightarrow> error option \<times> faucet" where
  "transact e c w = (case exec e c w of Inl err \<Rightarrow> (Some err, w) | Inr w' \<Rightarrow> (None, w'))"

text \<open>A sequence of transactions, each with its own context, from left to right.\<close>

fun run :: "(env \<times> call) list \<Rightarrow> faucet \<Rightarrow> faucet" where
  "run [] w = w"
| "run ((e, c) # cs) w = run cs (snd (transact e c w))"

text \<open>
  A call lowers the daily limit when it is a \<open>configureFaucet\<close> that succeeds with a
  daily limit below the total distributed so far in the day; a sequence never lowers it
  when none of its calls does so in the state it runs in. Likewise for the cap per
  address and what one address has received.
\<close>

fun lowers_daily_limit :: "env \<Rightarrow> call \<Rightarrow> faucet \<Rightarrow> bool" where
  "lowers_daily_limit e (ConfigureFaucet t c m d) w =
     (case configureFaucet e t c m d w of
        Inl err \<Rightarrow> False
      | Inr w' \<Rightarrow> d < totalDistributedToday w)"
| "lowers_daily_limit e c w = False"

fun never_lowers_daily_limit :: "(env \<times> call) list \<Rightarrow> faucet \<Rightarrow> bool" where
  "never_lowers_daily_limit [] w = True"
| "never_lowers_daily_limit ((e, c) # cs) w =
     (\<not> lowers_daily_limit e c w \<and> never_lowers_daily_limit cs (snd (transact e c w)))"

fun lowers_address_cap :: "address \<Rightarrow> env \<Rightarrow> call \<Rightarrow> faucet \<Rightarrow> bool" where
  "lowers_address_cap a e (ConfigureFaucet t c m d) w =
     (case configureFaucet e t c m d w of
        Inl err \<Rightarrow> False
      | Inr w' \<Rightarrow> m < totalTokensReceived w a)"
| "lowers_address_cap a e c w = False"

fun never_lowers_address_cap :: "address \<Rightarrow> (env \<times> call) list \<Rightarrow> faucet \<Rightarrow> bool" where
  "never_lowers_address_cap a [] w = True"
| "never_lowers_address_cap a ((e, c) # cs) w =
     (\<not> lowers_address_cap a e c w \<and> never_lowers_address_cap a cs (snd (transact e c w)))"

text \<open>
  A call is a successful request by an address when it is a \<open>requestTokens\<close> sent by
  that address that goes through; a sequence has no successful request by the address
  when none of its calls is one in the state it runs in.
\<close>

fun successful_request_by :: "address \<Rightarrow> env \<Rightarrow> call \<Rightarrow> faucet \<Rightarrow> bool" where
  "successful_request_by a e RequestTokens w =
     (msg_sender e = a \<and> (case requestTokens e w of Inl err \<Rightarrow> False | Inr w' \<Rightarrow> True))"
| "successful_request_by a e c w = False"

fun no_successful_request_by :: "address \<Rightarrow> (env \<times> call) list \<Rightarrow> faucet \<Rightarrow> bool" where
  "no_successful_request_by a [] w = True"
| "no_successful_request_by a ((e, c) # cs) w =
     (\<not> successful_request_by a e c w \<and> no_successful_request_by a cs (snd (transact e c w)))"

subsection \<open>A deployment for the examples\<close>

text \<open>
  The fixture of the test suite and of the scenarios of the specification: the token at
  address 100, the faucet at address 200 holding 5000 tokens, the owner at address 1,
  ten tokens per request, a cooldown of one hour, at most 100 tokens per address and
  1000 per day, deployed at time 0.
\<close>

definition example_ledgers :: "address \<Rightarrow> ledger" where
  "example_ledgers =
     (\<lambda>_. \<lparr>balances = (\<lambda>_. 0), allowances = (\<lambda>_ _. 0), transfers_paused = False\<rparr>)
       (100 := \<lparr>balances = (\<lambda>_. 0)(200 := 5000), allowances = (\<lambda>_ _. 0),
                transfers_paused = False\<rparr>)"

definition example_faucet :: faucet where
  "example_faucet =
     \<lparr>token = 100, tokensPerRequest = 10, cooldownTime = 3600, maxTokensPerAddress = 100,
      dailyLimit = 1000, totalDistributedToday = 0, lastResetTime = 0,
      lastRequestTime = (\<lambda>_. 0), totalTokensReceived = (\<lambda>_. 0),
      blacklisted = (\<lambda>_. False), this_address = 200, owner = 1, paused = False,
      ledgers = example_ledgers, events = [FaucetConfigured 10 3600 100 1000]\<rparr>"

text \<open>The same deployment after the owner of the token has paused the token.\<close>

definition example_token_paused :: faucet where
  "example_token_paused = pause_token example_faucet"

text \<open>A call made directly by the externally owned account \<open>a\<close> at time \<open>t\<close>.\<close>

definition caller :: "address \<Rightarrow> uint256 \<Rightarrow> env" where
  "caller a t = \<lparr>msg_sender = a, tx_origin = a, block_timestamp = t\<rparr>"

text \<open>
  Three sequences of calls: two requests followed by a configuration that sets the daily
  limit to 10, that sets the cap per address to 10, and that keeps both limits above
  what has been handed out.
\<close>

definition example_lowering_daily :: "(env \<times> call) list" where
  "example_lowering_daily =
     [(caller 2 5000, RequestTokens), (caller 3 5000, RequestTokens),
      (caller 1 6000, ConfigureFaucet 10 3600 100 10)]"

definition example_lowering_cap :: "(env \<times> call) list" where
  "example_lowering_cap =
     [(caller 2 5000, RequestTokens), (caller 2 9000, RequestTokens),
      (caller 1 9500, ConfigureFaucet 10 3600 10 1000)]"

definition example_raising :: "(env \<times> call) list" where
  "example_raising =
     [(caller 2 5000, RequestTokens), (caller 2 9000, RequestTokens),
      (caller 1 9500, ConfigureFaucet 10 3600 50 500)]"

text \<open>
  Calls that follow a request by address 2 at time 5000: a request by another address
  and a blacklisting of that address; and two sequences that start with the request by
  address 2, followed by a pause of the faucet, and by a configuration with the largest
  cooldown a \<^verbatim>\<open>uint256\<close> holds.
\<close>

definition example_busy :: "(env \<times> call) list" where
  "example_busy = [(caller 3 5100, RequestTokens), (caller 1 5200, SetBlacklisted 3 True)]"

definition example_then_paused :: "(env \<times> call) list" where
  "example_then_paused = [(caller 2 5000, RequestTokens), (caller 1 5100, Pause)]"

definition example_then_endless :: "(env \<times> call) list" where
  "example_then_endless =
     [(caller 2 5000, RequestTokens), (caller 1 5100, ConfigureFaucet 10 max_uint256 100 1000)]"

section \<open>Properties\<close>

subsection \<open>Auxiliary facts\<close>

lemma example_constructed:
  "constructor_faucet (caller 1 0) 200 example_ledgers 100 10 3600 100 1000 = Inr example_faucet"
  by (simp add: constructor_faucet_def example_faucet_def caller_def zero_address_def)

lemma ledger_accepts_iff:
  "ledger_accepts L src dst a \<longleftrightarrow>
     src \<noteq> zero_address \<and> dst \<noteq> zero_address \<and> \<not> transfers_paused L \<and> a \<le> balances L src"
  by (simp add: ledger_accepts_def ledger_transfer_def Let_def)

lemma safeTransfer_eq:
  "safeTransfer w tok dst a =
     (if this_address w = zero_address \<or> dst = zero_address
         \<or> transfers_paused (ledgers w tok) \<or> balanceOfThis w tok < a
      then Inl LedgerTransferFailed
      else Inr (w\<lparr>ledgers := (ledgers w)(tok := (ledgers w tok)\<lparr>balances :=
             ((balances (ledgers w tok))(this_address w := balanceOfThis w tok - a))
               (dst := ((balances (ledgers w tok))(this_address w := balanceOfThis w tok - a)) dst + a)\<rparr>)\<rparr>))"
  by (simp add: safeTransfer_def ledger_transfer_def balanceOfThis_def Let_def)

lemma safeTransfer_frame:
  "safeTransfer w tok dst a = Inr w' \<Longrightarrow> w' = w\<lparr>ledgers := ledgers w'\<rparr>"
  by (auto simp: safeTransfer_def split: sum.splits)

lemma safeTransfer_custody:
  assumes "safeTransfer w tok dst a = Inr w'"
    and "this_address v = this_address w" and "ledgers v = ledgers w"
  shows "safeTransfer v tok dst a = Inr (v\<lparr>ledgers := ledgers w'\<rparr>)"
  using assms by (auto simp: safeTransfer_def split: sum.splits)

lemma safeTransfer_balance:
  assumes "safeTransfer w tok dst a = Inr w1"
  shows "balanceOfThis w1 tok =
           (if dst = this_address w then balanceOfThis w tok else balanceOfThis w tok - a)"
    and "token w1 = token w" and "this_address w1 = this_address w"
    and "transfers_paused (ledgers w1 tok) = transfers_paused (ledgers w tok)"
  using assms by (auto simp: safeTransfer_eq balanceOfThis_def split: if_splits)

lemma getFaucetBalance_simps [simp]:
  "getFaucetBalance (emit ev w) = getFaucetBalance w"
  "getFaucetBalance (resetDailyLimit_internal e w) = getFaucetBalance w"
  by (simp_all add: getFaucetBalance_def balanceOfThis_def emit_def resetDailyLimit_internal_def)

text \<open>The second loop of \<open>batchDistribute\<close> writes the ledgers and the log, nothing else.\<close>

lemma distribute_loop_frame:
  "distribute_loop e rs as w = Inr w' \<Longrightarrow> w' = w\<lparr>ledgers := ledgers w', events := events w'\<rparr>"
proof (induction e rs as w arbitrary: w' rule: distribute_loop.induct)
  case (1 e amounts w)
  then show ?case by simp
next
  case (2 e r recipients w)
  then show ?case by simp
next
  case (3 e r recipients a amounts w)
  let ?ev = "TokensRequested r a (block_timestamp e)"
  from "3.prems" obtain w1 where
    t: "safeTransfer w (token w) r a = Inr w1" and
    l: "distribute_loop e recipients amounts (emit ?ev w1) = Inr w'"
    and nz: "r \<noteq> zero_address" "0 < a"
    by (auto split: if_splits sum.splits)
  have "w' = (emit ?ev w1)\<lparr>ledgers := ledgers w', events := events w'\<rparr>"
    using "3.IH" [OF _ _ t l] nz by simp
  moreover have "w1 = w\<lparr>ledgers := ledgers w1\<rparr>"
    by (rule safeTransfer_frame [OF t])
  ultimately show ?case
    by (cases w; cases w1; cases w') (simp add: emit_def)
qed

text \<open>Its outcome depends on the token, the address of the contract and the ledgers only.\<close>

lemma distribute_loop_custody:
  "distribute_loop e rs as w = Inr w' \<Longrightarrow> token v = token w \<Longrightarrow>
   this_address v = this_address w \<Longrightarrow> ledgers v = ledgers w \<Longrightarrow>
   \<exists>v'. distribute_loop e rs as v = Inr v' \<and> ledgers v' = ledgers w'"
proof (induction e rs as w arbitrary: v w' rule: distribute_loop.induct)
  case (1 e amounts w)
  then show ?case by simp
next
  case (2 e r recipients w)
  then show ?case by simp
next
  case (3 e r recipients a amounts w)
  let ?ev = "TokensRequested r a (block_timestamp e)"
  from "3.prems"(1) obtain w1 where
    t: "safeTransfer w (token w) r a = Inr w1" and
    l: "distribute_loop e recipients amounts (emit ?ev w1) = Inr w'"
    and nz: "r \<noteq> zero_address" "0 < a"
    by (auto split: if_splits sum.splits)
  have tv: "safeTransfer v (token v) r a = Inr (v\<lparr>ledgers := ledgers w1\<rparr>)"
    using safeTransfer_custody [OF t] "3.prems" by simp
  have same: "token w1 = token w" "this_address w1 = this_address w"
    using safeTransfer_balance(2,3) [OF t] by simp_all
  have "\<exists>v'. distribute_loop e recipients amounts (emit ?ev (v\<lparr>ledgers := ledgers w1\<rparr>)) = Inr v'
          \<and> ledgers v' = ledgers w'"
  proof (rule "3.IH" [OF _ _ t l])
    show "\<not> r = zero_address" "\<not> \<not> 0 < a" using nz by simp_all
    show "token (emit ?ev (v\<lparr>ledgers := ledgers w1\<rparr>)) = token (emit ?ev w1)"
      using same "3.prems"(2) by (simp add: emit_def)
    show "this_address (emit ?ev (v\<lparr>ledgers := ledgers w1\<rparr>)) = this_address (emit ?ev w1)"
      using same "3.prems"(3) by (simp add: emit_def)
    show "ledgers (emit ?ev (v\<lparr>ledgers := ledgers w1\<rparr>)) = ledgers (emit ?ev w1)"
      by (simp add: emit_def)
  qed
  with tv nz show ?case by simp
qed



text \<open>What a successful \<open>requestTokens\<close> has checked and what it has written.\<close>

lemma requestTokens_InrD:
  assumes "requestTokens e w = Inr w'"
  shows "\<not> paused w" and "validateRequest e w (msg_sender e) = None"
    and "\<not> overflows (lastResetTime w) one_day"
    and "tokensPerRequest w \<le> getFaucetBalance w"
    and "paused w' = paused w" and "blacklisted w' = blacklisted w"
    and "tokensPerRequest w' = tokensPerRequest w" and "cooldownTime w' = cooldownTime w"
    and "maxTokensPerAddress w' = maxTokensPerAddress w" and "dailyLimit w' = dailyLimit w"
    and "lastRequestTime w' = (lastRequestTime w)(msg_sender e := block_timestamp e)"
    and "totalTokensReceived w' = (totalTokensReceived w)
           (msg_sender e := totalTokensReceived w (msg_sender e) + tokensPerRequest w)"
    and "totalDistributedToday w' =
           (if lastResetTime w + one_day \<le> block_timestamp e then 0
            else totalDistributedToday w) + tokensPerRequest w"
    and "lastResetTime w' =
           (if lastResetTime w + one_day \<le> block_timestamp e then block_timestamp e
            else lastResetTime w)"
    and "events w' = events w
           @ (if lastResetTime w + one_day \<le> block_timestamp e
              then [DailyLimitReset (block_timestamp e) (totalDistributedToday w)] else [])
           @ [TokensRequested (msg_sender e) (tokensPerRequest w) (block_timestamp e)]"
    and "totalDistributedToday w' \<le> dailyLimit w'"
  using assms
  by (auto simp: requestTokens_def resetDailyLimitIfNeeded_def resetDailyLimit_internal_def
      safeTransfer_eq emit_def Let_def getFaucetBalance_def balanceOfThis_def
      split: if_splits option.splits)


text \<open>
  When the checks of \<open>requestTokens\<close> pass, the outcome is the one of the transfer:
  success when the ledger accepts it, the error of the ledger when it refuses.
\<close>

lemma requestTokens_InrI:
  assumes "\<not> paused w" and "validateRequest e w (msg_sender e) = None"
    and "\<not> overflows (lastResetTime w) one_day"
    and "(if lastResetTime w + one_day \<le> block_timestamp e then 0 else totalDistributedToday w)
           + tokensPerRequest w \<le> dailyLimit w"
    and "dailyLimit w \<le> max_uint256"
    and "tokensPerRequest w \<le> getFaucetBalance w"
    and "ledger_accepts (ledgers w (token w)) (this_address w) (msg_sender e) (tokensPerRequest w)"
  shows "\<exists>w'. requestTokens e w = Inr w'"
  using assms
  by (auto simp: requestTokens_def resetDailyLimitIfNeeded_def resetDailyLimit_internal_def
      safeTransfer_eq emit_def Let_def getFaucetBalance_def balanceOfThis_def overflows_def
      ledger_accepts_iff split: if_splits)

lemma requestTokens_refused:
  assumes "\<not> paused w" and "validateRequest e w (msg_sender e) = None"
    and "\<not> overflows (lastResetTime w) one_day"
    and "(if lastResetTime w + one_day \<le> block_timestamp e then 0 else totalDistributedToday w)
           + tokensPerRequest w \<le> dailyLimit w"
    and "dailyLimit w \<le> max_uint256"
    and "tokensPerRequest w \<le> getFaucetBalance w"
    and "\<not> ledger_accepts (ledgers w (token w)) (this_address w) (msg_sender e)
           (tokensPerRequest w)"
  shows "requestTokens e w = Inl LedgerTransferFailed"
  using assms
  by (auto simp: requestTokens_def resetDailyLimitIfNeeded_def resetDailyLimit_internal_def
      safeTransfer_eq emit_def Let_def getFaucetBalance_def balanceOfThis_def overflows_def
      ledger_accepts_iff split: if_splits)

lemma example_token_paused_facts:
  "getFaucetBalance example_token_paused = 5000"
  "balanceOfThis example_token_paused 100 = 5000"
  "transfers_paused (ledgers example_token_paused 100)"
  "token example_token_paused = 100" "owner example_token_paused = Suc 0"
  "this_address example_token_paused = 200" "\<not> paused example_token_paused"
  by (simp_all add: example_token_paused_def pause_token_def example_faucet_def
      example_ledgers_def ledger_pause_def getFaucetBalance_def balanceOfThis_def)

lemma safeTransferFrom_frame:
  "safeTransferFrom w tok src a = Inr w' \<Longrightarrow> w' = w\<lparr>ledgers := ledgers w'\<rparr>"
  by (auto simp: safeTransferFrom_def split: sum.splits)

text \<open>Only a request that goes through writes a last request time, and only the sender's.\<close>

lemma exec_lastRequestTime:
  assumes "exec e c w = Inr w'" and "\<not> successful_request_by a e c w"
  shows "lastRequestTime w' a = lastRequestTime w a"
proof (cases c)
  case RequestTokens
  with assms have ok: "requestTokens e w = Inr w'" and "msg_sender e \<noteq> a"
    by auto
  with requestTokens_InrD(11) [OF ok] show ?thesis by simp
next
  case (BatchDistribute rs as)
  with assms have "distribute_loop e rs as w = Inr w'"
    by (auto simp: batchDistribute_def split: if_splits sum.splits)
  from distribute_loop_frame [OF this] show ?thesis
    by (metis faucet.select_convs(8) faucet.surjective faucet.update_convs(14,15))
next
  case (DepositTokens amount)
  with assms obtain w1 where t: "safeTransferFrom w (token w) (msg_sender e) amount = Inr w1"
    and w': "w' = emit (TokensDeposited (msg_sender e) amount) w1"
    by (auto simp: depositTokens_def split: if_splits sum.splits)
  from safeTransferFrom_frame [OF t] w' show ?thesis
    by (cases w; cases w1) (simp add: emit_def)
next
  case (WithdrawTokens amount)
  with assms show ?thesis
    by (auto simp: withdrawTokens_def safeTransfer_eq emit_def split: if_splits)
next
  case (ConfigureFaucet t cd m d)
  with assms show ?thesis
    by (auto simp: configureFaucet_def emit_def split: if_splits)
next
  case Pause
  with assms show ?thesis by (auto simp: pause_def emit_def split: if_splits)
next
  case Unpause
  with assms show ?thesis by (auto simp: unpause_def emit_def split: if_splits)
next
  case (SetBlacklisted user status)
  with assms show ?thesis by (auto simp: setBlacklisted_def emit_def split: if_splits)
next
  case ResetDailyLimit
  with assms show ?thesis
    by (auto simp: resetDailyLimit_def resetDailyLimit_internal_def emit_def split: if_splits)
next
  case (EmergencyWithdrawCall tok amount)
  with assms show ?thesis
    by (auto simp: emergencyWithdraw_def safeTransfer_eq emit_def split: if_splits)
qed

lemma run_lastRequestTime:
  "no_successful_request_by a cs w \<Longrightarrow> lastRequestTime (run cs w) a = lastRequestTime w a"
proof (induction cs arbitrary: w)
  case Nil
  then show ?case by simp
next
  case (Cons x cs)
  obtain e c where x: "x = (e, c)" by (cases x)
  from Cons.prems x have ns: "\<not> successful_request_by a e c w"
    and rest: "no_successful_request_by a cs (snd (transact e c w))"
    by simp_all
  have "lastRequestTime (snd (transact e c w)) a = lastRequestTime w a"
  proof (cases "exec e c w")
    case (Inl err)
    then show ?thesis by (simp add: transact_def)
  next
    case (Inr w')
    from exec_lastRequestTime [OF Inr ns] Inr show ?thesis by (simp add: transact_def)
  qed
  with Cons.IH [OF rest] x show ?case by simp
qed

lemmas example_defs =
  transact_def requestTokens_def validateRequest_def resetDailyLimitIfNeeded_def
  configureFaucet_def setBlacklisted_def pause_def
  caller_def example_faucet_def overflows_def max_uint256_def one_day_def
  getFaucetBalance_def balanceOfThis_def example_ledgers_def safeTransfer_eq emit_def Let_def
  zero_address_def

subsection \<open>Frame properties\<close>

text \<open>
  Claim C9. A successful \<open>configureFaucet\<close> replaces the four configuration fields and
  appends its event; the daily total, the reset time, every user's last request time,
  total received and blacklist flag, and the pause flag are as before. In particular a
  lower daily limit neither resets nor clamps the total of the day.
\<close>

theorem configureFaucet_frame:
  assumes "configureFaucet e t c m d w = Inr w'"
  shows "w' = w\<lparr>tokensPerRequest := t, cooldownTime := c, maxTokensPerAddress := m,
                 dailyLimit := d, events := events w @ [FaucetConfigured t c m d]\<rparr>
         \<and> totalDistributedToday w' = totalDistributedToday w
         \<and> lastResetTime w' = lastResetTime w
         \<and> lastRequestTime w' = lastRequestTime w
         \<and> totalTokensReceived w' = totalTokensReceived w
         \<and> blacklisted w' = blacklisted w
         \<and> paused w' = paused w"
  using assms by (auto simp: configureFaucet_def emit_def split: if_splits)

theorem configureFaucet_frame_witness:
  "\<exists>w'. configureFaucet (caller 1 500) 10 3600 100 10
           (example_faucet\<lparr>totalDistributedToday := 20\<rparr>) = Inr w'
     \<and> totalDistributedToday w' = 20 \<and> dailyLimit w' = 10"
proof -
  have "\<exists>w'. configureFaucet (caller 1 500) 10 3600 100 10
           (example_faucet\<lparr>totalDistributedToday := 20\<rparr>) = Inr w'"
    by (simp add: configureFaucet_def example_faucet_def caller_def)
  then obtain w' where h: "configureFaucet (caller 1 500) 10 3600 100 10
           (example_faucet\<lparr>totalDistributedToday := 20\<rparr>) = Inr w'" ..
  from configureFaucet_frame [OF h] have "totalDistributedToday w' = 20 \<and> dailyLimit w' = 10"
    by simp
  with h show ?thesis by blast
qed

text \<open>
  Claim C8. An accepted \<open>batchDistribute\<close> writes the ledgers and the event log only:
  the last request time and the total received of every address and the daily total
  keep their values. It reads none of the pause flag, the blacklist, the cooldown and
  cap accounting or the configuration: with any other values in those fields the same
  call is accepted and moves the same funds, so it goes through while the faucet is
  paused.
\<close>

theorem batchDistribute_bypasses_accounting:
  assumes "batchDistribute e rs as w = Inr w'"
  shows "w' = w\<lparr>ledgers := ledgers w', events := events w'\<rparr>
       \<and> lastRequestTime w' = lastRequestTime w
       \<and> totalTokensReceived w' = totalTokensReceived w
       \<and> totalDistributedToday w' = totalDistributedToday w
       \<and> (\<exists>v'. batchDistribute e rs as
                  (w\<lparr>paused := p, blacklisted := b, lastRequestTime := lrt,
                     totalTokensReceived := ttr, totalDistributedToday := tdt,
                     lastResetTime := lr, tokensPerRequest := t, cooldownTime := c,
                     maxTokensPerAddress := m, dailyLimit := d\<rparr>) = Inr v'
                \<and> ledgers v' = ledgers w')"
proof -
  let ?v = "w\<lparr>paused := p, blacklisted := b, lastRequestTime := lrt,
              totalTokensReceived := ttr, totalDistributedToday := tdt,
              lastResetTime := lr, tokensPerRequest := t, cooldownTime := c,
              maxTokensPerAddress := m, dailyLimit := d\<rparr>"
  from assms obtain total where
    own: "msg_sender e = owner w" and len: "length rs = length as" "0 < length rs"
    and total: "sum_amounts 0 as = Inr total" "total \<le> getFaucetBalance w"
    and loop: "distribute_loop e rs as w = Inr w'"
    by (auto simp: batchDistribute_def split: if_splits sum.splits)
  have frame: "w' = w\<lparr>ledgers := ledgers w', events := events w'\<rparr>"
    by (rule distribute_loop_frame [OF loop])
  have f1: "lastRequestTime w' = lastRequestTime w"
    and f2: "totalTokensReceived w' = totalTokensReceived w"
    and f3: "totalDistributedToday w' = totalDistributedToday w"
    by (subst frame, simp)+
  have "\<exists>v'. distribute_loop e rs as ?v = Inr v' \<and> ledgers v' = ledgers w'"
    by (rule distribute_loop_custody [OF loop]) simp_all
  moreover have "getFaucetBalance ?v = getFaucetBalance w"
    by (simp add: getFaucetBalance_def balanceOfThis_def)
  ultimately have "\<exists>v'. batchDistribute e rs as ?v = Inr v' \<and> ledgers v' = ledgers w'"
    using own len total by (simp add: batchDistribute_def)
  with frame f1 f2 f3 show ?thesis by blast
qed

theorem batchDistribute_bypasses_accounting_witness:
  "\<exists>w'. batchDistribute (caller 1 500) [2, 3] [50, 75] (example_faucet\<lparr>paused := True\<rparr>) = Inr w'
     \<and> lastRequestTime w' 2 = 0 \<and> totalTokensReceived w' 3 = 0
     \<and> totalDistributedToday w' = 0"
proof -
  let ?w = "example_faucet\<lparr>paused := True\<rparr>"
  have "\<exists>w'. batchDistribute (caller 1 500) [2, 3] [50, 75] ?w = Inr w'"
    by (simp add: batchDistribute_def example_faucet_def caller_def
        overflows_def max_uint256_def getFaucetBalance_def balanceOfThis_def
        example_ledgers_def safeTransfer_eq zero_address_def emit_def)
  then obtain w' where h: "batchDistribute (caller 1 500) [2, 3] [50, 75] ?w = Inr w'" ..
  from batchDistribute_bypasses_accounting [OF h]
  have "lastRequestTime w' = lastRequestTime ?w
      \<and> totalTokensReceived w' = totalTokensReceived ?w
      \<and> totalDistributedToday w' = totalDistributedToday ?w"
    by blast
  then have "lastRequestTime w' 2 = 0 \<and> totalTokensReceived w' 3 = 0
     \<and> totalDistributedToday w' = 0"
    by (simp add: example_faucet_def)
  with h show ?thesis by blast
qed

subsection \<open>Rejected entries of a batch\<close>




subsection \<open>Withdrawals\<close>

text \<open>
  Claim C7, amended. Called by the owner, \<open>withdrawTokens\<close> fails with the
  invalid-amount error for amount 0 and with the insufficient-balance error when the
  balance of the contract is below the amount; otherwise it hands the transfer to the
  ledger: when the ledger accepts, the amount moves to the owner and \<open>TokensWithdrawn\<close>
  is emitted, and when the ledger refuses (the token is paused) the call fails with the
  error of the ledger. \<open>emergencyWithdraw\<close> fails for the zero token address, then with
  the invalid-amount error for amount 0; it has no balance check of its own and hands
  the transfer to the ledger at once: the ledger refuses when the balance is short (or
  for a reason of its own), otherwise the amount moves to the owner and
  \<open>EmergencyWithdraw\<close> is emitted.
\<close>

theorem withdraw_checks:
  assumes "msg_sender e = owner w"
  shows "(amount = 0 \<longrightarrow> withdrawTokens e amount w = Inl InvalidAmount)
       \<and> (0 < amount \<and> getFaucetBalance w < amount
            \<longrightarrow> withdrawTokens e amount w = Inl InsufficientFaucetBalance)
       \<and> (0 < amount \<and> amount \<le> getFaucetBalance w
            \<and> \<not> ledger_accepts (ledgers w (token w)) (this_address w) (owner w) amount
            \<longrightarrow> withdrawTokens e amount w = Inl LedgerTransferFailed)
       \<and> (0 < amount \<and> amount \<le> getFaucetBalance w
            \<and> ledger_accepts (ledgers w (token w)) (this_address w) (owner w) amount
            \<longrightarrow> (\<exists>w'. withdrawTokens e amount w = Inr w'
                   \<and> events w' = events w @ [TokensWithdrawn (owner w) amount]
                   \<and> (owner w \<noteq> this_address w
                        \<longrightarrow> getFaucetBalance w' = getFaucetBalance w - amount
                          \<and> balances (ledgers w' (token w)) (owner w)
                              = balances (ledgers w (token w)) (owner w) + amount)))
       \<and> (tok = zero_address \<longrightarrow> emergencyWithdraw e tok amount w = Inl InvalidTokenAddress)
       \<and> (tok \<noteq> zero_address \<and> amount = 0
            \<longrightarrow> emergencyWithdraw e tok amount w = Inl InvalidAmount)
       \<and> (balanceOfThis w tok < amount
            \<longrightarrow> \<not> ledger_accepts (ledgers w tok) (this_address w) (owner w) amount)
       \<and> (tok \<noteq> zero_address \<and> 0 < amount
            \<and> \<not> ledger_accepts (ledgers w tok) (this_address w) (owner w) amount
            \<longrightarrow> emergencyWithdraw e tok amount w = Inl LedgerTransferFailed)
       \<and> (tok \<noteq> zero_address \<and> 0 < amount
            \<and> ledger_accepts (ledgers w tok) (this_address w) (owner w) amount
            \<longrightarrow> (\<exists>w'. emergencyWithdraw e tok amount w = Inr w'
                   \<and> events w' = events w @ [EmergencyWithdraw tok amount]
                   \<and> (owner w \<noteq> this_address w
                        \<longrightarrow> balanceOfThis w' tok = balanceOfThis w tok - amount
                          \<and> balances (ledgers w' tok) (owner w)
                              = balances (ledgers w tok) (owner w) + amount)))"
proof -
  have a: "amount = 0 \<longrightarrow> withdrawTokens e amount w = Inl InvalidAmount"
    using assms by (simp add: withdrawTokens_def)
  have b: "0 < amount \<and> getFaucetBalance w < amount
            \<longrightarrow> withdrawTokens e amount w = Inl InsufficientFaucetBalance"
    using assms by (simp add: withdrawTokens_def)
  have c1: "0 < amount \<and> amount \<le> getFaucetBalance w
            \<and> \<not> ledger_accepts (ledgers w (token w)) (this_address w) (owner w) amount
            \<longrightarrow> withdrawTokens e amount w = Inl LedgerTransferFailed"
    using assms
    by (auto simp: withdrawTokens_def safeTransfer_eq getFaucetBalance_def
        balanceOfThis_def ledger_accepts_iff)
  have c2: "0 < amount \<and> amount \<le> getFaucetBalance w
            \<and> ledger_accepts (ledgers w (token w)) (this_address w) (owner w) amount
            \<longrightarrow> (\<exists>w'. withdrawTokens e amount w = Inr w'
                   \<and> events w' = events w @ [TokensWithdrawn (owner w) amount]
                   \<and> (owner w \<noteq> this_address w
                        \<longrightarrow> getFaucetBalance w' = getFaucetBalance w - amount
                          \<and> balances (ledgers w' (token w)) (owner w)
                              = balances (ledgers w (token w)) (owner w) + amount))"
    using assms
    by (simp add: withdrawTokens_def safeTransfer_eq getFaucetBalance_def emit_def
        balanceOfThis_def ledger_accepts_iff)
  have d: "tok = zero_address \<longrightarrow> emergencyWithdraw e tok amount w = Inl InvalidTokenAddress"
    using assms by (simp add: emergencyWithdraw_def)
  have f: "tok \<noteq> zero_address \<and> amount = 0
            \<longrightarrow> emergencyWithdraw e tok amount w = Inl InvalidAmount"
    using assms by (simp add: emergencyWithdraw_def)
  have s: "balanceOfThis w tok < amount
            \<longrightarrow> \<not> ledger_accepts (ledgers w tok) (this_address w) (owner w) amount"
    by (simp add: ledger_accepts_iff balanceOfThis_def)
  have g: "tok \<noteq> zero_address \<and> 0 < amount
            \<and> \<not> ledger_accepts (ledgers w tok) (this_address w) (owner w) amount
            \<longrightarrow> emergencyWithdraw e tok amount w = Inl LedgerTransferFailed"
    using assms
    by (auto simp: emergencyWithdraw_def safeTransfer_eq ledger_accepts_iff balanceOfThis_def)
  have h: "tok \<noteq> zero_address \<and> 0 < amount
            \<and> ledger_accepts (ledgers w tok) (this_address w) (owner w) amount
            \<longrightarrow> (\<exists>w'. emergencyWithdraw e tok amount w = Inr w'
                   \<and> events w' = events w @ [EmergencyWithdraw tok amount]
                   \<and> (owner w \<noteq> this_address w
                        \<longrightarrow> balanceOfThis w' tok = balanceOfThis w tok - amount
                          \<and> balances (ledgers w' tok) (owner w)
                              = balances (ledgers w tok) (owner w) + amount))"
    using assms
    by (simp add: emergencyWithdraw_def safeTransfer_eq emit_def balanceOfThis_def
        ledger_accepts_iff)
  from a b c1 c2 d f s g h show ?thesis by blast
qed

theorem withdraw_checks_witness:
  "withdrawTokens (caller 1 500) 0 example_faucet = Inl InvalidAmount
   \<and> withdrawTokens (caller 1 500) 6000 example_faucet = Inl InsufficientFaucetBalance
   \<and> withdrawTokens (caller 1 500) 100 example_token_paused = Inl LedgerTransferFailed
   \<and> (\<exists>w'. withdrawTokens (caller 1 500) 100 example_faucet = Inr w'
          \<and> getFaucetBalance w' = 4900 \<and> balances (ledgers w' 100) 1 = 100)
   \<and> emergencyWithdraw (caller 1 500) 0 0 example_faucet = Inl InvalidTokenAddress
   \<and> emergencyWithdraw (caller 1 500) 100 0 example_faucet = Inl InvalidAmount
   \<and> emergencyWithdraw (caller 1 500) 100 6000 example_faucet = Inl LedgerTransferFailed
   \<and> (\<exists>w'. emergencyWithdraw (caller 1 500) 100 100 example_faucet = Inr w'
          \<and> balanceOfThis w' 100 = 4900 \<and> balances (ledgers w' 100) 1 = 100)"
proof -
  have own: "msg_sender (caller 1 500) = owner example_faucet"
    "msg_sender (caller 1 500) = owner example_token_paused"
    by (simp_all add: caller_def example_faucet_def example_token_paused_facts)
  have facts: "getFaucetBalance example_faucet = 5000" "balanceOfThis example_faucet 100 = 5000"
    "owner example_faucet = Suc 0" "this_address example_faucet = 200"
    "token example_faucet = 100"
    "balances (ledgers example_faucet 100) (Suc 0) = 0" "zero_address = 0"
    "balances (ledgers example_faucet 100) 200 = 5000"
    "\<not> transfers_paused (ledgers example_faucet 100)"
    "balances (ledgers example_token_paused 100) 200 = 5000"
    by (simp_all add: example_faucet_def getFaucetBalance_def balanceOfThis_def
        example_ledgers_def zero_address_def example_token_paused_def pause_token_def ledger_pause_def)
  from withdraw_checks [OF own(1), of 0 0] withdraw_checks [OF own(1), of 6000 100]
    withdraw_checks [OF own(1), of 100 100] withdraw_checks [OF own(1), of 0 100]
    withdraw_checks [OF own(2), of 100 100]
  show ?thesis
    by (auto simp: facts example_token_paused_facts ledger_accepts_iff)
qed

theorem emergencyWithdraw_counterexample:
  "getFaucetBalance example_faucet < 6000
   \<and> emergencyWithdraw (caller 1 500) (token example_faucet) 6000 example_faucet
       = Inl LedgerTransferFailed
   \<and> emergencyWithdraw (caller 1 500) (token example_faucet) 6000 example_faucet
       \<noteq> Inl InsufficientFaucetBalance
   \<and> 100 \<le> getFaucetBalance example_token_paused
   \<and> withdrawTokens (caller 1 500) 100 example_token_paused = Inl LedgerTransferFailed"
proof -
  have short: "getFaucetBalance example_faucet < 6000
   \<and> emergencyWithdraw (caller 1 500) (token example_faucet) 6000 example_faucet
       = Inl LedgerTransferFailed"
    by (simp add: emergencyWithdraw_def safeTransfer_eq caller_def example_faucet_def
        getFaucetBalance_def balanceOfThis_def example_ledgers_def zero_address_def)
  have refused: "100 \<le> getFaucetBalance example_token_paused
   \<and> withdrawTokens (caller 1 500) 100 example_token_paused = Inl LedgerTransferFailed"
    by (simp add: withdrawTokens_def safeTransfer_eq caller_def example_token_paused_facts)
  from short refused show ?thesis by simp
qed

subsection \<open>The rate-limited request\<close>

text \<open>
  Claim C3. When a day or more has passed since the last reset and the other checks,
  the one of the ledger included, let the request through, \<open>requestTokens\<close> succeeds
  whatever the stale total of the day was: it zeroes the total before the daily check,
  sets the reset time to now and records the reset before the distribution, so that
  the new total is one payout. When the ledger refuses the transfer the call fails with
  the error of the ledger. When less than a day has passed, a successful request keeps
  the reset time, adds the payout to the running total and records no reset, and a
  request whose payout would exceed the limit on top of the running total fails on the
  daily cap.
\<close>

theorem requestTokens_epoch_reset:
  "(\<not> paused w \<and> validateRequest e w (msg_sender e) = None
      \<and> lastResetTime w + one_day \<le> block_timestamp e \<and> block_timestamp e \<le> max_uint256
      \<and> tokensPerRequest w \<le> dailyLimit w \<and> dailyLimit w \<le> max_uint256
      \<and> tokensPerRequest w \<le> getFaucetBalance w
      \<and> ledger_accepts (ledgers w (token w)) (this_address w) (msg_sender e)
            (tokensPerRequest w)
    \<longrightarrow> (\<exists>w'. requestTokens e w = Inr w'
           \<and> totalDistributedToday w' = tokensPerRequest w
           \<and> lastResetTime w' = block_timestamp e
           \<and> events w' = events w
                @ [DailyLimitReset (block_timestamp e) (totalDistributedToday w),
                   TokensRequested (msg_sender e) (tokensPerRequest w) (block_timestamp e)]))
   \<and> (\<not> paused w \<and> validateRequest e w (msg_sender e) = None
      \<and> lastResetTime w + one_day \<le> block_timestamp e \<and> block_timestamp e \<le> max_uint256
      \<and> tokensPerRequest w \<le> dailyLimit w \<and> dailyLimit w \<le> max_uint256
      \<and> tokensPerRequest w \<le> getFaucetBalance w
      \<and> \<not> ledger_accepts (ledgers w (token w)) (this_address w) (msg_sender e)
            (tokensPerRequest w)
    \<longrightarrow> requestTokens e w = Inl LedgerTransferFailed)
   \<and> (block_timestamp e < lastResetTime w + one_day \<and> requestTokens e w = Inr w1
    \<longrightarrow> lastResetTime w1 = lastResetTime w
        \<and> totalDistributedToday w1 = totalDistributedToday w + tokensPerRequest w
        \<and> events w1 = events w
             @ [TokensRequested (msg_sender e) (tokensPerRequest w) (block_timestamp e)])
   \<and> (block_timestamp e < lastResetTime w + one_day \<and> lastResetTime w + one_day \<le> max_uint256
      \<and> \<not> paused w \<and> validateRequest e w (msg_sender e) = None
      \<and> dailyLimit w < totalDistributedToday w + tokensPerRequest w
      \<and> totalDistributedToday w + tokensPerRequest w \<le> max_uint256
    \<longrightarrow> requestTokens e w = Inl DailyCapExceeded)"
proof -
  have pre: "\<not> overflows (lastResetTime w) one_day
      \<and> (if lastResetTime w + one_day \<le> block_timestamp e then 0
          else totalDistributedToday w) + tokensPerRequest w \<le> dailyLimit w"
    if "lastResetTime w + one_day \<le> block_timestamp e" "block_timestamp e \<le> max_uint256"
      "tokensPerRequest w \<le> dailyLimit w"
    using that by (simp add: overflows_def)
  have due: "\<exists>w'. requestTokens e w = Inr w'
           \<and> totalDistributedToday w' = tokensPerRequest w
           \<and> lastResetTime w' = block_timestamp e
           \<and> events w' = events w
                @ [DailyLimitReset (block_timestamp e) (totalDistributedToday w),
                   TokensRequested (msg_sender e) (tokensPerRequest w) (block_timestamp e)]"
    if h: "\<not> paused w" "validateRequest e w (msg_sender e) = None"
      "lastResetTime w + one_day \<le> block_timestamp e" "block_timestamp e \<le> max_uint256"
      "tokensPerRequest w \<le> dailyLimit w" "dailyLimit w \<le> max_uint256"
      "tokensPerRequest w \<le> getFaucetBalance w"
      "ledger_accepts (ledgers w (token w)) (this_address w) (msg_sender e)
            (tokensPerRequest w)"
  proof -
    from pre [OF h(3,4,5)] have no: "\<not> overflows (lastResetTime w) one_day"
      and cap: "(if lastResetTime w + one_day \<le> block_timestamp e then 0
          else totalDistributedToday w) + tokensPerRequest w \<le> dailyLimit w"
      by simp_all
    from requestTokens_InrI [OF h(1) h(2) no cap h(6) h(7) h(8)]
    obtain w' where ok: "requestTokens e w = Inr w'" ..
    from requestTokens_InrD(13,14,15) [OF ok] h(3) ok show ?thesis by simp
  qed
  have refused: "requestTokens e w = Inl LedgerTransferFailed"
    if h: "\<not> paused w" "validateRequest e w (msg_sender e) = None"
      "lastResetTime w + one_day \<le> block_timestamp e" "block_timestamp e \<le> max_uint256"
      "tokensPerRequest w \<le> dailyLimit w" "dailyLimit w \<le> max_uint256"
      "tokensPerRequest w \<le> getFaucetBalance w"
      "\<not> ledger_accepts (ledgers w (token w)) (this_address w) (msg_sender e)
            (tokensPerRequest w)"
  proof -
    from pre [OF h(3,4,5)] have no: "\<not> overflows (lastResetTime w) one_day"
      and cap: "(if lastResetTime w + one_day \<le> block_timestamp e then 0
          else totalDistributedToday w) + tokensPerRequest w \<le> dailyLimit w"
      by simp_all
    show ?thesis by (rule requestTokens_refused [OF h(1) h(2) no cap h(6) h(7) h(8)])
  qed
  have fresh: "lastResetTime w1 = lastResetTime w
        \<and> totalDistributedToday w1 = totalDistributedToday w + tokensPerRequest w
        \<and> events w1 = events w
             @ [TokensRequested (msg_sender e) (tokensPerRequest w) (block_timestamp e)]"
    if h: "block_timestamp e < lastResetTime w + one_day" "requestTokens e w = Inr w1"
    using requestTokens_InrD(13,14,15) [OF h(2)] h(1) by simp
  have stale: "requestTokens e w = Inl DailyCapExceeded"
    if h: "block_timestamp e < lastResetTime w + one_day"
      "lastResetTime w + one_day \<le> max_uint256"
      "\<not> paused w" "validateRequest e w (msg_sender e) = None"
      "dailyLimit w < totalDistributedToday w + tokensPerRequest w"
      "totalDistributedToday w + tokensPerRequest w \<le> max_uint256"
    using h by (simp add: requestTokens_def resetDailyLimitIfNeeded_def overflows_def)
  from due refused fresh stale show ?thesis by blast
qed

theorem requestTokens_epoch_reset_witness:
  "(\<exists>w'. requestTokens (caller 2 90000) (example_faucet\<lparr>totalDistributedToday := 1000\<rparr>) = Inr w'
        \<and> totalDistributedToday w' = 10 \<and> lastResetTime w' = 90000
        \<and> events w' = [FaucetConfigured 10 3600 100 1000, DailyLimitReset 90000 1000,
                        TokensRequested 2 10 90000])
   \<and> requestTokens (caller 2 90000) (example_token_paused\<lparr>totalDistributedToday := 1000\<rparr>)
       = Inl LedgerTransferFailed
   \<and> (\<exists>w1. requestTokens (caller 2 5000) example_faucet = Inr w1
        \<and> totalDistributedToday w1 = 10 \<and> lastResetTime w1 = 0
        \<and> events w1 = [FaucetConfigured 10 3600 100 1000, TokensRequested 2 10 5000])
   \<and> requestTokens (caller 2 5000) (example_faucet\<lparr>totalDistributedToday := 1000\<rparr>)
       = Inl DailyCapExceeded"
proof -
  let ?w = "example_faucet\<lparr>totalDistributedToday := 1000\<rparr>"
  let ?p = "example_token_paused\<lparr>totalDistributedToday := 1000\<rparr>"
  have v: "validateRequest (caller 2 90000) ?w (msg_sender (caller 2 90000)) = None"
    "validateRequest (caller 2 5000) ?w (msg_sender (caller 2 5000)) = None"
    "validateRequest (caller 2 90000) ?p (msg_sender (caller 2 90000)) = None"
    by (simp_all add: validateRequest_def caller_def example_faucet_def
        example_token_paused_def pause_token_def overflows_def max_uint256_def)
  have facts: "\<not> paused ?w" "lastResetTime ?w = 0" "tokensPerRequest ?w = 10"
    "dailyLimit ?w = 1000" "getFaucetBalance ?w = 5000" "totalDistributedToday ?w = 1000"
    "events ?w = [FaucetConfigured 10 3600 100 1000]"
    "block_timestamp (caller 2 90000) = 90000" "block_timestamp (caller 2 5000) = 5000"
    "msg_sender (caller 2 90000) = 2"
    "ledger_accepts (ledgers example_faucet (token example_faucet))
       (this_address example_faucet) 2 10"
    by (simp_all add: example_faucet_def getFaucetBalance_def balanceOfThis_def
        example_ledgers_def caller_def ledger_accepts_iff zero_address_def)
  have pfacts: "\<not> paused ?p" "lastResetTime ?p = 0" "tokensPerRequest ?p = 10"
    "dailyLimit ?p = 1000" "getFaucetBalance ?p = 5000"
    "\<not> ledger_accepts (ledgers example_token_paused (token example_token_paused))
          (this_address example_token_paused) 2 10"
    by (simp_all add: example_token_paused_def pause_token_def example_faucet_def
        getFaucetBalance_def balanceOfThis_def example_ledgers_def ledger_accepts_iff
        ledger_pause_def)
  have "\<exists>w1. requestTokens (caller 2 5000) example_faucet = Inr w1"
    by (simp add: requestTokens_def validateRequest_def resetDailyLimitIfNeeded_def
        caller_def example_faucet_def overflows_def max_uint256_def one_day_def
        getFaucetBalance_def balanceOfThis_def example_ledgers_def safeTransfer_eq Let_def
        zero_address_def)
  then obtain w1 where h: "requestTokens (caller 2 5000) example_faucet = Inr w1" ..
  from requestTokens_epoch_reset [of example_faucet "caller 2 5000" w1] h
  have fresh: "totalDistributedToday w1 = 10 \<and> lastResetTime w1 = 0
        \<and> events w1 = [FaucetConfigured 10 3600 100 1000, TokensRequested 2 10 5000]"
    by (simp add: example_faucet_def caller_def one_day_def)
  from requestTokens_epoch_reset [of ?w "caller 2 90000"]
    requestTokens_epoch_reset [of ?w "caller 2 5000"] v
  have a: "(\<exists>w'. requestTokens (caller 2 90000) ?w = Inr w'
        \<and> totalDistributedToday w' = 10 \<and> lastResetTime w' = 90000
        \<and> events w' = [FaucetConfigured 10 3600 100 1000, DailyLimitReset 90000 1000,
                        TokensRequested 2 10 90000])
      \<and> requestTokens (caller 2 5000) ?w = Inl DailyCapExceeded"
    by (simp add: facts one_day_def max_uint256_def)
  from requestTokens_epoch_reset [of ?p "caller 2 90000"] v(3)
  have b: "requestTokens (caller 2 90000) ?p = Inl LedgerTransferFailed"
    by (simp add: pfacts facts(8,10) one_day_def max_uint256_def)
  from a b h fresh show ?thesis by blast
qed

text \<open>
  Claim C4, amended. After a successful \<open>requestTokens\<close> by an address at time \<open>T\<close>,
  and after any sequence of further calls in which that address makes no successful
  request, every request by the address at a time before \<open>T + cooldownTime\<close> fails. It
  fails on the cooldown when the checks before the cooldown check pass (the faucet is
  not paused, the sender is the originator and is not blacklisted) and
  \<open>T + cooldownTime\<close> fits in 256 bits. A request at or after \<open>T + cooldownTime\<close>
  succeeds when these checks, the cap per address, the daily cap and the balance permit
  and the ledger accepts the transfer.
\<close>

theorem cooldown_after_request:
  assumes "requestTokens e1 w = Inr w1"
    and "no_successful_request_by (msg_sender e1) cs w1"
    and "msg_sender e2 = msg_sender e1"
  shows "(block_timestamp e2 < block_timestamp e1 + cooldownTime (run cs w1)
          \<longrightarrow> (\<exists>err. requestTokens e2 (run cs w1) = Inl err))
       \<and> (block_timestamp e2 < block_timestamp e1 + cooldownTime (run cs w1)
            \<and> block_timestamp e1 + cooldownTime (run cs w1) \<le> max_uint256
            \<and> \<not> paused (run cs w1) \<and> tx_origin e2 = msg_sender e2
            \<and> \<not> blacklisted (run cs w1) (msg_sender e2)
          \<longrightarrow> requestTokens e2 (run cs w1) = Inl CooldownActive)
       \<and> (block_timestamp e1 + cooldownTime (run cs w1) \<le> block_timestamp e2
            \<and> block_timestamp e2 \<le> max_uint256
            \<and> \<not> paused (run cs w1) \<and> tx_origin e2 = msg_sender e2
            \<and> \<not> blacklisted (run cs w1) (msg_sender e2)
            \<and> totalTokensReceived (run cs w1) (msg_sender e2) + tokensPerRequest (run cs w1)
                 \<le> maxTokensPerAddress (run cs w1)
            \<and> maxTokensPerAddress (run cs w1) \<le> max_uint256
            \<and> (if lastResetTime (run cs w1) + one_day \<le> block_timestamp e2 then 0
                else totalDistributedToday (run cs w1)) + tokensPerRequest (run cs w1)
                 \<le> dailyLimit (run cs w1)
            \<and> dailyLimit (run cs w1) \<le> max_uint256
            \<and> lastResetTime (run cs w1) + one_day \<le> max_uint256
            \<and> tokensPerRequest (run cs w1) \<le> getFaucetBalance (run cs w1)
            \<and> ledger_accepts (ledgers (run cs w1) (token (run cs w1)))
                 (this_address (run cs w1)) (msg_sender e2) (tokensPerRequest (run cs w1))
          \<longrightarrow> (\<exists>w3. requestTokens e2 (run cs w1) = Inr w3
                 \<and> lastRequestTime w3 (msg_sender e2) = block_timestamp e2))"
proof -
  let ?w = "run cs w1"
  have "lastRequestTime w1 (msg_sender e1) = block_timestamp e1"
    using requestTokens_InrD(11) [OF assms(1)] by simp
  with run_lastRequestTime [OF assms(2)] assms(3)
  have lrt: "lastRequestTime ?w (msg_sender e2) = block_timestamp e1"
    by simp
  have fails: "\<exists>err. requestTokens e2 ?w = Inl err"
    if h: "block_timestamp e2 < block_timestamp e1 + cooldownTime ?w"
  proof (cases "requestTokens e2 ?w")
    case (Inl err)
    then show ?thesis by simp
  next
    case (Inr w3)
    from requestTokens_InrD(2) [OF Inr] lrt h show ?thesis
      by (auto simp: validateRequest_def split: if_splits)
  qed
  have early: "requestTokens e2 ?w = Inl CooldownActive"
    if h: "block_timestamp e2 < block_timestamp e1 + cooldownTime ?w"
      "block_timestamp e1 + cooldownTime ?w \<le> max_uint256"
      "\<not> paused ?w" "tx_origin e2 = msg_sender e2" "\<not> blacklisted ?w (msg_sender e2)"
    using h lrt by (simp add: requestTokens_def validateRequest_def overflows_def)
  have late: "\<exists>w3. requestTokens e2 ?w = Inr w3
                 \<and> lastRequestTime w3 (msg_sender e2) = block_timestamp e2"
    if h: "block_timestamp e1 + cooldownTime ?w \<le> block_timestamp e2"
      "block_timestamp e2 \<le> max_uint256"
      "\<not> paused ?w" "tx_origin e2 = msg_sender e2" "\<not> blacklisted ?w (msg_sender e2)"
      "totalTokensReceived ?w (msg_sender e2) + tokensPerRequest ?w \<le> maxTokensPerAddress ?w"
      "maxTokensPerAddress ?w \<le> max_uint256"
      "(if lastResetTime ?w + one_day \<le> block_timestamp e2 then 0
        else totalDistributedToday ?w) + tokensPerRequest ?w \<le> dailyLimit ?w"
      "dailyLimit ?w \<le> max_uint256"
      "lastResetTime ?w + one_day \<le> max_uint256"
      "tokensPerRequest ?w \<le> getFaucetBalance ?w"
      "ledger_accepts (ledgers ?w (token ?w)) (this_address ?w) (msg_sender e2)
         (tokensPerRequest ?w)"
  proof -
    have v: "validateRequest e2 ?w (msg_sender e2) = None"
      using h(1,2,4,5,6,7) lrt by (simp add: validateRequest_def overflows_def)
    have no: "\<not> overflows (lastResetTime ?w) one_day"
      using h(10) by (simp add: overflows_def)
    from requestTokens_InrI [OF h(3) v no h(8) h(9) h(11) h(12)]
    obtain w3 where ok: "requestTokens e2 ?w = Inr w3" ..
    from requestTokens_InrD(11) [OF ok] ok show ?thesis by simp
  qed
  from fails early late show ?thesis by blast
qed

theorem cooldown_after_request_witness:
  "requestTokens (caller 2 5000) example_faucet
     = Inr (run [(caller 2 5000, RequestTokens)] example_faucet)
   \<and> requestTokens (caller 2 8599)
        (run example_busy (run [(caller 2 5000, RequestTokens)] example_faucet))
       = Inl CooldownActive
   \<and> (\<exists>w3. requestTokens (caller 2 8600)
              (run example_busy (run [(caller 2 5000, RequestTokens)] example_faucet))
            = Inr w3
          \<and> lastRequestTime w3 2 = 8600)"
proof -
  let ?w1 = "run [(caller 2 5000, RequestTokens)] example_faucet"
  let ?w2 = "run example_busy ?w1"
  have h: "requestTokens (caller 2 5000) example_faucet = Inr ?w1"
    by (simp add: example_defs)
  have g: "no_successful_request_by (msg_sender (caller 2 5000)) example_busy ?w1"
    by (simp add: example_busy_def caller_def)
  have facts: "cooldownTime ?w2 = 3600" "\<not> paused ?w2" "\<not> blacklisted ?w2 2"
    "totalTokensReceived ?w2 2 = 10" "tokensPerRequest ?w2 = 10"
    "maxTokensPerAddress ?w2 = 100" "totalDistributedToday ?w2 = 20" "dailyLimit ?w2 = 1000"
    "lastResetTime ?w2 = 0" "getFaucetBalance ?w2 = 4980"
    "ledger_accepts (ledgers ?w2 (token ?w2)) (this_address ?w2) 2 10"
    by (simp_all add: example_busy_def example_defs ledger_accepts_iff)
  have c: "msg_sender (caller 2 t) = msg_sender (caller 2 5000)"
    "tx_origin (caller 2 t) = msg_sender (caller 2 t)" "msg_sender (caller 2 t) = 2"
    "block_timestamp (caller 2 t) = t" for t
    by (simp_all add: caller_def)
  from cooldown_after_request [OF h g c(1), of 8599]
    cooldown_after_request [OF h g c(1), of 8600] facts
  have "requestTokens (caller 2 8599) ?w2 = Inl CooldownActive
      \<and> (\<exists>w3. requestTokens (caller 2 8600) ?w2 = Inr w3 \<and> lastRequestTime w3 2 = 8600)"
    by (simp add: c(2,3,4) max_uint256_def one_day_def)
  with h show ?thesis by blast
qed

theorem cooldown_counterexample:
  "requestTokens (caller 2 5000) example_faucet
     = Inr (run [(caller 2 5000, RequestTokens)] example_faucet)
   \<and> requestTokens (caller 2 5200) (run example_then_paused example_faucet) = Inl Paused
   \<and> requestTokens (caller 2 5200) (run example_then_endless example_faucet) = Inl Panic
   \<and> \<not> paused (pause_token (run [(caller 2 5000, RequestTokens)] example_faucet))
   \<and> \<not> blacklisted (pause_token (run [(caller 2 5000, RequestTokens)] example_faucet)) 2
   \<and> totalTokensReceived (pause_token (run [(caller 2 5000, RequestTokens)] example_faucet)) 2
        + 10 \<le> 100
   \<and> totalDistributedToday (pause_token (run [(caller 2 5000, RequestTokens)] example_faucet))
        + 10 \<le> 1000
   \<and> 10 \<le> getFaucetBalance (pause_token (run [(caller 2 5000, RequestTokens)] example_faucet))
   \<and> requestTokens (caller 2 9000)
        (pause_token (run [(caller 2 5000, RequestTokens)] example_faucet))
       = Inl LedgerTransferFailed"
proof -
  have first: "requestTokens (caller 2 5000) example_faucet
     = Inr (run [(caller 2 5000, RequestTokens)] example_faucet)"
    by (simp add: example_defs)
  have paused: "requestTokens (caller 2 5200) (run example_then_paused example_faucet)
      = Inl Paused"
    by (simp add: example_then_paused_def example_defs)
  have endless: "requestTokens (caller 2 5200) (run example_then_endless example_faucet)
      = Inl Panic"
    by (simp add: example_then_endless_def example_defs)
  let ?p = "pause_token (run [(caller 2 5000, RequestTokens)] example_faucet)"
  have conds: "\<not> paused ?p" "\<not> blacklisted ?p 2" "totalTokensReceived ?p 2 + 10 \<le> 100"
    "totalDistributedToday ?p + 10 \<le> 1000" "10 \<le> getFaucetBalance ?p"
    by (simp_all add: pause_token_def ledger_pause_def example_defs)
  have refused: "requestTokens (caller 2 9000) ?p = Inl LedgerTransferFailed"
    by (simp add: pause_token_def ledger_pause_def example_defs)
  from first paused endless conds refused show ?thesis by simp
qed

text \<open>
  Claim C5, amended. Whoever asks, the third result of \<open>getUserInfo\<close> for a user is
  true exactly when a request made by that user as its own originator, at the same
  time, passes the checks of \<open>requestTokens\<close> with the reset step left out. The query
  has no originator check. When no reset is due these checks are all the checks of
  \<open>requestTokens\<close>: they pass exactly when the call goes through or fails in the
  transfer of the ledger only.
\<close>

theorem canRequestNow_matches_request_checks:
  assumes "msg_sender e = u" and "tx_origin e = u"
    and "block_timestamp ev = block_timestamp e"
  shows "((\<exists>tr lr wt. getUserInfo ev w u = Inr (tr, lr, True, wt))
            \<longleftrightarrow> request_checks_without_reset e w)
       \<and> (\<not> overflows (lastResetTime w) one_day
            \<and> block_timestamp e < lastResetTime w + one_day
          \<longrightarrow> (request_checks_without_reset e w
                \<longleftrightarrow> (case requestTokens e w of
                       Inl err \<Rightarrow> err = LedgerTransferFailed
                     | Inr w' \<Rightarrow> True)))"
proof -
  have view: "(\<exists>tr lr wt. getUserInfo ev w u = Inr (tr, lr, True, wt))
            \<longleftrightarrow> request_checks_without_reset e w"
    using assms
    by (auto simp: getUserInfo_def canUserRequest_internal_def request_checks_without_reset_def
        validateRequest_def Let_def split: if_splits sum.splits)
  have req: "request_checks_without_reset e w
                \<longleftrightarrow> (case requestTokens e w of
                       Inl err \<Rightarrow> err = LedgerTransferFailed
                     | Inr w' \<Rightarrow> True)"
    if h: "\<not> overflows (lastResetTime w) one_day"
      "block_timestamp e < lastResetTime w + one_day"
    using h
    by (auto simp: request_checks_without_reset_def requestTokens_def
        resetDailyLimitIfNeeded_def safeTransfer_eq validateRequest_def Let_def
        split: if_splits option.splits sum.splits)
  from view req show ?thesis by blast
qed

theorem canRequestNow_matches_request_checks_witness:
  "(\<exists>tr lr wt. getUserInfo \<lparr>msg_sender = 7, tx_origin = 8, block_timestamp = 5000\<rparr>
         example_faucet 2 = Inr (tr, lr, True, wt))
   \<and> request_checks_without_reset (caller 2 5000) example_faucet
   \<and> (\<exists>w'. requestTokens (caller 2 5000) example_faucet = Inr w')"
proof -
  let ?ev = "\<lparr>msg_sender = 7, tx_origin = 8, block_timestamp = 5000\<rparr>"
  have c: "msg_sender (caller 2 5000) = 2" "tx_origin (caller 2 5000) = 2"
    "block_timestamp ?ev = block_timestamp (caller 2 5000)"
    by (simp_all add: caller_def)
  have ok: "request_checks_without_reset (caller 2 5000) example_faucet"
    by (simp add: request_checks_without_reset_def validateRequest_def caller_def
        example_faucet_def overflows_def max_uint256_def getFaucetBalance_def
        balanceOfThis_def example_ledgers_def)
  have go: "\<exists>w'. requestTokens (caller 2 5000) example_faucet = Inr w'"
    by (simp add: example_defs)
  from canRequestNow_matches_request_checks [OF c, of example_faucet] ok go
  show ?thesis by blast
qed

theorem canRequestNow_counterexample:
  "getUserInfo \<lparr>msg_sender = 2, tx_origin = 9, block_timestamp = 5000\<rparr> example_faucet 2
     = Inr (0, 0, True, 0)
   \<and> \<not> request_checks_without_reset
         \<lparr>msg_sender = 2, tx_origin = 9, block_timestamp = 5000\<rparr> example_faucet
   \<and> requestTokens \<lparr>msg_sender = 2, tx_origin = 9, block_timestamp = 5000\<rparr> example_faucet
     = Inl CallerNotOriginator"
  by (simp add: getUserInfo_def canUserRequest_internal_def request_checks_without_reset_def
      requestTokens_def validateRequest_def example_faucet_def overflows_def max_uint256_def
      getFaucetBalance_def balanceOfThis_def example_ledgers_def)

subsection \<open>The two caps along a sequence of calls\<close>

text \<open>
  How a successful call changes the four quantities of the two caps: the request adds
  one payout, the reset zeroes the daily total, the configuration sets the two limits,
  and every other operation leaves all four alone.
\<close>

lemma exec_caps:
  assumes "exec e c w = Inr w'"
  shows "c = RequestTokens \<or> c = ResetDailyLimit \<or> (\<exists>t cd m d. c = ConfigureFaucet t cd m d)
       \<or> (totalDistributedToday w' = totalDistributedToday w \<and> dailyLimit w' = dailyLimit w
           \<and> totalTokensReceived w' = totalTokensReceived w
           \<and> maxTokensPerAddress w' = maxTokensPerAddress w)"
proof (cases c)
  case (BatchDistribute rs as)
  with assms have "distribute_loop e rs as w = Inr w'"
    by (auto simp: batchDistribute_def split: if_splits sum.splits)
  from distribute_loop_frame [OF this]
  have "totalDistributedToday w' = totalDistributedToday w \<and> dailyLimit w' = dailyLimit w
           \<and> totalTokensReceived w' = totalTokensReceived w
           \<and> maxTokensPerAddress w' = maxTokensPerAddress w"
    by (metis faucet.select_convs(4-6,9) faucet.surjective faucet.update_convs(14,15))
  then show ?thesis by simp
next
  case (DepositTokens amount)
  with assms obtain w1 where t: "safeTransferFrom w (token w) (msg_sender e) amount = Inr w1"
    and w': "w' = emit (TokensDeposited (msg_sender e) amount) w1"
    by (auto simp: depositTokens_def split: if_splits sum.splits)
  from safeTransferFrom_frame [OF t] w' show ?thesis
    by (cases w; cases w1) (simp add: emit_def)
next
  case (WithdrawTokens amount)
  with assms show ?thesis
    by (auto simp: withdrawTokens_def safeTransfer_eq emit_def split: if_splits)
next
  case (EmergencyWithdrawCall tok amount)
  with assms show ?thesis
    by (auto simp: emergencyWithdraw_def safeTransfer_eq emit_def split: if_splits)
next
  case Pause
  with assms show ?thesis by (auto simp: pause_def emit_def split: if_splits)
next
  case Unpause
  with assms show ?thesis by (auto simp: unpause_def emit_def split: if_splits)
next
  case (SetBlacklisted user status)
  with assms show ?thesis by (auto simp: setBlacklisted_def emit_def split: if_splits)
qed simp_all

lemma exec_daily_cap:
  assumes "exec e c w = Inr w'" and "totalDistributedToday w \<le> dailyLimit w"
    and "\<not> lowers_daily_limit e c w"
  shows "totalDistributedToday w' \<le> dailyLimit w'"
proof -
  consider "c = RequestTokens" | "c = ResetDailyLimit"
    | t cd m d where "c = ConfigureFaucet t cd m d"
    | "totalDistributedToday w' = totalDistributedToday w \<and> dailyLimit w' = dailyLimit w"
    using exec_caps [OF assms(1)] by blast
  then show ?thesis
  proof cases
    case 1
    with assms(1) show ?thesis using requestTokens_InrD(16) by simp
  next
    case 2
    with assms(1) show ?thesis
      by (auto simp: resetDailyLimit_def resetDailyLimit_internal_def emit_def split: if_splits)
  next
    case 3
    with assms show ?thesis
      by (auto simp: configureFaucet_def emit_def split: if_splits)
  next
    case 4
    with assms(2) show ?thesis by simp
  qed
qed

lemma exec_address_cap:
  assumes "exec e c w = Inr w'" and "totalTokensReceived w a \<le> maxTokensPerAddress w"
    and "\<not> lowers_address_cap a e c w"
  shows "totalTokensReceived w' a \<le> maxTokensPerAddress w'"
proof -
  consider "c = RequestTokens" | "c = ResetDailyLimit"
    | t cd m d where "c = ConfigureFaucet t cd m d"
    | "totalTokensReceived w' = totalTokensReceived w
        \<and> maxTokensPerAddress w' = maxTokensPerAddress w"
    using exec_caps [OF assms(1)] by blast
  then show ?thesis
  proof cases
    case 1
    with assms(1) have ok: "requestTokens e w = Inr w'" by simp
    from requestTokens_InrD(2) [OF ok]
    have "totalTokensReceived w (msg_sender e) + tokensPerRequest w \<le> maxTokensPerAddress w"
      by (auto simp: validateRequest_def split: if_splits)
    with requestTokens_InrD(9,12) [OF ok] assms(2) show ?thesis by simp
  next
    case 2
    with assms(1,2) show ?thesis
      by (auto simp: resetDailyLimit_def resetDailyLimit_internal_def emit_def split: if_splits)
  next
    case 3
    with assms show ?thesis
      by (auto simp: configureFaucet_def emit_def split: if_splits)
  next
    case 4
    with assms(2) show ?thesis by simp
  qed
qed

lemma run_daily_cap:
  "totalDistributedToday w \<le> dailyLimit w \<Longrightarrow> never_lowers_daily_limit cs w \<Longrightarrow>
   totalDistributedToday (run cs w) \<le> dailyLimit (run cs w)"
proof (induction cs arbitrary: w)
  case Nil
  then show ?case by simp
next
  case (Cons x cs)
  obtain e c where x: "x = (e, c)" by (cases x)
  from Cons.prems x have nl: "\<not> lowers_daily_limit e c w"
    and rest: "never_lowers_daily_limit cs (snd (transact e c w))"
    by simp_all
  have "totalDistributedToday (snd (transact e c w)) \<le> dailyLimit (snd (transact e c w))"
  proof (cases "exec e c w")
    case (Inl err)
    with Cons.prems(1) show ?thesis by (simp add: transact_def)
  next
    case (Inr w')
    from exec_daily_cap [OF Inr Cons.prems(1) nl] Inr show ?thesis
      by (simp add: transact_def)
  qed
  from Cons.IH [OF this rest] x show ?case by simp
qed

lemma run_address_cap:
  "totalTokensReceived w a \<le> maxTokensPerAddress w \<Longrightarrow> never_lowers_address_cap a cs w \<Longrightarrow>
   totalTokensReceived (run cs w) a \<le> maxTokensPerAddress (run cs w)"
proof (induction cs arbitrary: w)
  case Nil
  then show ?case by simp
next
  case (Cons x cs)
  obtain e c where x: "x = (e, c)" by (cases x)
  from Cons.prems x have nl: "\<not> lowers_address_cap a e c w"
    and rest: "never_lowers_address_cap a cs (snd (transact e c w))"
    by simp_all
  have "totalTokensReceived (snd (transact e c w)) a
          \<le> maxTokensPerAddress (snd (transact e c w))"
  proof (cases "exec e c w")
    case (Inl err)
    with Cons.prems(1) show ?thesis by (simp add: transact_def)
  next
    case (Inr w')
    from exec_address_cap [OF Inr Cons.prems(1) nl] Inr show ?thesis
      by (simp add: transact_def)
  qed
  from Cons.IH [OF this rest] x show ?case by simp
qed

lemma constructor_caps:
  assumes "constructor_faucet e0 this ls tok t c m d = Inr w0"
  shows "totalDistributedToday w0 = 0" and "totalTokensReceived w0 a = 0"
  using assms by (auto simp: constructor_faucet_def split: if_splits)

text \<open>
  Claim C1, amended. After a successful \<open>requestTokens\<close>, in whatever state it was
  called, the total of the day is at most the daily limit. From construction on, the total stays at most the limit along
  every sequence of calls in which no successful \<open>configureFaucet\<close> sets the limit
  below the total accumulated at that moment.
\<close>

theorem daily_cap_invariant:
  assumes "constructor_faucet e0 this ls tok t c m d = Inr w0"
    and "never_lowers_daily_limit cs w0"
  shows "totalDistributedToday (run cs w0) \<le> dailyLimit (run cs w0)
       \<and> (requestTokens e w = Inr w' \<longrightarrow> totalDistributedToday w' \<le> dailyLimit w')"
proof -
  have "totalDistributedToday w0 \<le> dailyLimit w0"
    using constructor_caps(1) [OF assms(1)] by simp
  from run_daily_cap [OF this assms(2)] requestTokens_InrD(16) [of e w w']
  show ?thesis by blast
qed

theorem daily_cap_invariant_witness:
  "never_lowers_daily_limit example_raising example_faucet
   \<and> totalDistributedToday (run example_raising example_faucet) = 20
   \<and> dailyLimit (run example_raising example_faucet) = 500
   \<and> totalDistributedToday (run example_raising example_faucet)
       \<le> dailyLimit (run example_raising example_faucet)"
proof -
  have g: "never_lowers_daily_limit example_raising example_faucet"
    by (simp add: example_raising_def example_defs)
  have v: "totalDistributedToday (run example_raising example_faucet) = 20"
    "dailyLimit (run example_raising example_faucet) = 500"
    by (simp_all add: example_raising_def example_defs)
  from daily_cap_invariant [OF example_constructed g] g v show ?thesis by blast
qed

theorem daily_cap_counterexample:
  "constructor_faucet (caller 1 0) 200 example_ledgers 100 10 3600 100 1000 = Inr example_faucet
   \<and> totalDistributedToday (run example_lowering_daily example_faucet) = 20
   \<and> dailyLimit (run example_lowering_daily example_faucet) = 10
   \<and> \<not> totalDistributedToday (run example_lowering_daily example_faucet)
         \<le> dailyLimit (run example_lowering_daily example_faucet)"
proof -
  have v: "totalDistributedToday (run example_lowering_daily example_faucet) = 20"
    "dailyLimit (run example_lowering_daily example_faucet) = 10"
    by (simp_all add: example_lowering_daily_def example_defs)
  with example_constructed show ?thesis by simp
qed

text \<open>
  Claim C2, amended. From construction on, the total an address has received stays at
  most the cap per address along every sequence of calls in which no successful
  \<open>configureFaucet\<close> sets the cap below what that address has received by then.
\<close>

theorem address_cap_invariant:
  assumes "constructor_faucet e0 this ls tok t c m d = Inr w0"
    and "never_lowers_address_cap a cs w0"
  shows "totalTokensReceived (run cs w0) a \<le> maxTokensPerAddress (run cs w0)"
proof -
  have "totalTokensReceived w0 a \<le> maxTokensPerAddress w0"
    using constructor_caps(2) [OF assms(1)] by simp
  from run_address_cap [OF this assms(2)] show ?thesis .
qed

theorem address_cap_invariant_witness:
  "never_lowers_address_cap 2 example_raising example_faucet
   \<and> totalTokensReceived (run example_raising example_faucet) 2 = 20
   \<and> maxTokensPerAddress (run example_raising example_faucet) = 50
   \<and> totalTokensReceived (run example_raising example_faucet) 2
       \<le> maxTokensPerAddress (run example_raising example_faucet)"
proof -
  have g: "never_lowers_address_cap 2 example_raising example_faucet"
    by (simp add: example_raising_def example_defs)
  have v: "totalTokensReceived (run example_raising example_faucet) 2 = 20"
    "maxTokensPerAddress (run example_raising example_faucet) = 50"
    by (simp_all add: example_raising_def example_defs)
  from address_cap_invariant [OF example_constructed g] g v show ?thesis by blast
qed

theorem address_cap_counterexample:
  "constructor_faucet (caller 1 0) 200 example_ledgers 100 10 3600 100 1000 = Inr example_faucet
   \<and> totalTokensReceived (run example_lowering_cap example_faucet) 2 = 20
   \<and> maxTokensPerAddress (run example_lowering_cap example_faucet) = 10
   \<and> \<not> totalTokensReceived (run example_lowering_cap example_faucet) 2
         \<le> maxTokensPerAddress (run example_lowering_cap example_faucet)"
proof -
  have v: "totalTokensReceived (run example_lowering_cap example_faucet) 2 = 20"
    "maxTokensPerAddress (run example_lowering_cap example_faucet) = 10"
    by (simp_all add: example_lowering_cap_def example_defs)
  with example_constructed show ?thesis by simp
qed

end
